theory Spec2Isabelle
  imports Main "HOL-Library.Char_ord" "HOL-Library.List_Lexorder"
begin

section \<open>Paths, as \<^verbatim>\<open>pathlib\<close> sees them\<close>

text \<open>
  A path is the text of a normalised relative POSIX path (what \<^verbatim>\<open>Path().glob\<close> yields and
  \<^verbatim>\<open>str(path)\<close> prints). \<^verbatim>\<open>Path.name\<close> is the final component, empty for the current
  directory \<^verbatim>\<open>.\<close>; \<^verbatim>\<open>Path.suffix\<close> is the part of the
  name from its last dot on, unless that dot is the first or the last character of the name,
  and \<^verbatim>\<open>Path.with_suffix\<close> replaces the suffix; it raises \<^verbatim>\<open>ValueError\<close> for a suffix that holds
  a separator or is a lone dot, and for a path with an empty name.
\<close>

type_synonym path = string

datatype error =
    ValueError
  | NotImplementedError
  | FileNotFoundError
  | CalledProcessError int
  | OSError int

definition name :: "path \<Rightarrow> string" where
  "name p = (if p = ''.'' then [] else rev (takeWhile (\<lambda>c. c \<noteq> CHR ''/'') (rev p)))"

definition suffix :: "path \<Rightarrow> string" where
  "suffix p =
     (let n = name p; t = takeWhile (\<lambda>c. c \<noteq> CHR ''.'') (rev n)
      in if CHR ''.'' \<in> set n \<and> t \<noteq> [] \<and> Suc (length t) < length n
         then CHR ''.'' # rev t else [])"

definition with_suffix :: "path \<Rightarrow> string \<Rightarrow> error + path" where
  "with_suffix p s =
     (if CHR ''/'' \<in> set s \<or> (s \<noteq> [] \<and> hd s \<noteq> CHR ''.'') \<or> s = ''.'' then Inl ValueError
      else if name p = [] then Inl ValueError
      else Inr (take (length p - length (suffix p)) p @ s))"

section \<open>The world outside the program\<close>

text \<open>
  The program acts on a file system, runs the transcoder and prints. The world holds the
  paths that exist (in the order a directory walk meets them), the paths whose status
  cannot be read, each with the error number of the failure (permission denied, name too
  long: a failure that \<^verbatim>\<open>Path.exists\<close> does not take for absence), and the trace of what the
  program did to the outside: each transcoder conversion run with its input, its output
  and how the process ended, and each line printed. A printed line is kept as the message
  with its fields, without the time stamp that \<^verbatim>\<open>log\<close> puts in front.
\<close>

datatype proc_result = LaunchFailed | Exited int

datatype message =
    Skipping path
  | Converted path path
  | Scanning string
  | Found nat
  | ConvertedTo int string
  | Summary int int
  | UnsupportedOutputFormat string
  | Text string
  | ErrorOccurred error

datatype event = Ran path path proc_result | Echoed message

record world =
  files :: "path list"
  stat_errors :: "(path \<times> int) list"
  events :: "event list"

fun invocation_of :: "event \<Rightarrow> (path \<times> path) list" where
  "invocation_of (Ran i out r) = [(i, out)]"
| "invocation_of (Echoed m) = []"

fun echo_of :: "event \<Rightarrow> message list" where
  "echo_of (Ran i out r) = []"
| "echo_of (Echoed m) = [m]"

definition invocations :: "world \<Rightarrow> (path \<times> path) list" where
  "invocations w = concat (map invocation_of (events w))"

definition echoed :: "world \<Rightarrow> message list" where
  "echoed w = concat (map echo_of (events w))"

text \<open>
  The transcoder is an external collaborator: given input path, output path and the
  existing paths, a conversion run either cannot be launched or exits with a status, and
  leaves a file system behind. \<^verbatim>\<open>Path().glob\<close> is one too: a pattern is either refused or
  decides which existing paths it matches.
\<close>

type_synonym transcoder = "path \<Rightarrow> path \<Rightarrow> path list \<Rightarrow> proc_result \<times> path list"

type_synonym globber = "string \<Rightarrow> error + (path \<Rightarrow> bool)"

text \<open>
  \<^verbatim>\<open>Path.exists()\<close>, as in CPython 3.8 to 3.12: whether the path is there, unless reading
  its status fails with an error other than the four it takes for absence; then \<^verbatim>\<open>OSError\<close>
  escapes.
\<close>

definition exists_path :: "world \<Rightarrow> path \<Rightarrow> error + bool" where
  "exists_path w p =
     (case map_of (stat_errors w) p of
        Some errno \<Rightarrow> Inl (OSError errno)
      | None \<Rightarrow> Inr (p \<in> set (files w)))"

definition glob :: "globber \<Rightarrow> string \<Rightarrow> world \<Rightarrow> error + path list" where
  "glob gm glob_pattern w =
     (case gm glob_pattern of
        Inl e \<Rightarrow> Inl e
      | Inr m \<Rightarrow> Inr (filter m (files w)))"

text \<open>What \<^verbatim>\<open>subprocess.run(..., check=True)\<close> raises for a process that did not exit with 0.\<close>

fun error_of :: "proc_result \<Rightarrow> error" where
  "error_of LaunchFailed = FileNotFoundError"
| "error_of (Exited code) = CalledProcessError code"

text \<open>\<^verbatim>\<open>subprocess.run(["ffmpeg", "-i", str(input_path), str(output_path)], check=True)\<close>\<close>

definition run_ffmpeg :: "transcoder \<Rightarrow> path \<Rightarrow> path \<Rightarrow> world \<Rightarrow> (error + unit) \<times> world" where
  "run_ffmpeg tr input_path output_path w =
     (case tr input_path output_path (files w) of
        (LaunchFailed, fs) \<Rightarrow>
          (Inl (error_of LaunchFailed),
           w\<lparr>events := events w @ [Ran input_path output_path LaunchFailed]\<rparr>)
      | (Exited code, fs) \<Rightarrow>
          (if code = 0 then Inr () else Inl (error_of (Exited code)),
           w\<lparr>files := fs, events := events w @ [Ran input_path output_path (Exited code)]\<rparr>))"

definition echo :: "message \<Rightarrow> world \<Rightarrow> world" where
  "echo msg w = w\<lparr>events := events w @ [Echoed msg]\<rparr>"

section \<open>ffmpeg.py\<close>

record FFmpegFormat =
  is_decoder :: bool
  is_encoder :: bool
  extension :: string
  description :: string

text \<open>
  White space as \<^verbatim>\<open>\s\<close> and \<^verbatim>\<open>str.strip\<close> see it, on ASCII text: the space, the controls
  \<^verbatim>\<open>\t \n \v \f \r\<close> and the separators \<^verbatim>\<open>\x1c\<close> to \<^verbatim>\<open>\x1f\<close>.
\<close>

definition is_space :: "char \<Rightarrow> bool" where
  "is_space c =
     (c \<in> set [CHR '' '', CHR 0x09, CHR 0x0A, CHR 0x0B, CHR 0x0C, CHR 0x0D,
               CHR 0x1C, CHR 0x1D, CHR 0x1E, CHR 0x1F])"

definition strip :: "string \<Rightarrow> string" where
  "strip s = rev (dropWhile is_space (rev (dropWhile is_space s)))"

text \<open>\<^verbatim>\<open>str.split(sep)\<close> for a separator of one character.\<close>

fun split :: "char \<Rightarrow> string \<Rightarrow> string list" where
  "split sep [] = [[]]"
| "split sep (c # cs) =
     (if c = sep then [] # split sep cs
      else (case split sep cs of
              [] \<Rightarrow> [[c]]
            | piece # pieces \<Rightarrow> (c # piece) # pieces))"

subsection \<open>The pattern\<close>

text \<open>
  A piece of the regular expression maps the text still to be matched to the ways it can
  match a prefix of it (what it captured, and the rest), in the order the backtracking
  matcher tries them: a greedy repetition longest first, a lazy one shortest first, an
  optional group first with its character and then without.
\<close>

type_synonym 'a rx = "string \<Rightarrow> ('a \<times> string) list"

definition greedy_star :: "(char \<Rightarrow> bool) \<Rightarrow> string rx" where
  "greedy_star P s =
     map (\<lambda>k. (take k s, drop k s)) (rev [0..<Suc (length (takeWhile P s))])"

definition greedy_plus :: "(char \<Rightarrow> bool) \<Rightarrow> string rx" where
  "greedy_plus P s =
     map (\<lambda>k. (take k s, drop k s)) (rev [1..<Suc (length (takeWhile P s))])"

definition lazy_star :: "(char \<Rightarrow> bool) \<Rightarrow> string rx" where
  "lazy_star P s =
     map (\<lambda>k. (take k s, drop k s)) [0..<Suc (length (takeWhile P s))]"

definition optional :: "char \<Rightarrow> char option rx" where
  "optional c s =
     (case s of
        [] \<Rightarrow> [(None, s)]
      | x # xs \<Rightarrow> if x = c then [(Some c, xs), (None, s)] else [(None, s)])"

text \<open>\<^verbatim>\<open>$\<close>: the end of the text, or just before a newline that ends it.\<close>

definition at_end :: "string \<Rightarrow> bool" where
  "at_end s = (s = [] \<or> s = [CHR 0x0A])"

text \<open>
  \<^verbatim>\<open>^\s*(?P<is_decoder>D)?\.?(?P<is_encoder>E)?\s+(?P<extension>\S+)\s+(?P<description>.*?)\s*$\<close>:
  every way the pattern matches the line from its start, as the groups
  (is_decoder, is_encoder, extension, description), in the matcher's order.
\<close>

definition pattern_matches :: "string \<Rightarrow> (char option \<times> char option \<times> string \<times> string) list" where
  "pattern_matches line =
     List.bind (greedy_star is_space line) (\<lambda>(_, s1).
     List.bind (optional CHR ''D'' s1) (\<lambda>(d, s2).
     List.bind (optional CHR ''.'' s2) (\<lambda>(_, s3).
     List.bind (optional CHR ''E'' s3) (\<lambda>(e, s4).
     List.bind (greedy_plus is_space s4) (\<lambda>(_, s5).
     List.bind (greedy_plus (\<lambda>c. \<not> is_space c) s5) (\<lambda>(ext, s6).
     List.bind (greedy_plus is_space s6) (\<lambda>(_, s7).
     List.bind (lazy_star (\<lambda>c. c \<noteq> CHR 0x0A) s7) (\<lambda>(desc, s8).
     List.bind (greedy_star is_space s8) (\<lambda>(_, s9).
       if at_end s9 then [(d, e, ext, desc)] else [])))))))))"

text \<open>\<^verbatim>\<open>pattern.match(line)\<close>: the first way, if there is one.\<close>

definition pattern_match :: "string \<Rightarrow> (char option \<times> char option \<times> string \<times> string) option" where
  "pattern_match line = (case pattern_matches line of [] \<Rightarrow> None | m # _ \<Rightarrow> Some m)"

text \<open>The body of \<^verbatim>\<open>for line in output.split("\n")\<close>: the formats one line appends.\<close>

definition line_formats :: "string \<Rightarrow> FFmpegFormat list" where
  "line_formats line =
     (case pattern_match line of
        None \<Rightarrow> []
      | Some (d, e, exts, desc) \<Rightarrow>
          map (\<lambda>ext. \<lparr>is_decoder = (d = Some CHR ''D''), is_encoder = (e = Some CHR ''E''),
                      extension = ext, description = strip desc\<rparr>)
              (split CHR '','' exts))"

fun parse_lines :: "string list \<Rightarrow> FFmpegFormat list \<Rightarrow> FFmpegFormat list" where
  "parse_lines [] formats = formats"
| "parse_lines (line # rest) formats = parse_lines rest (formats @ line_formats line)"

text \<open>The argument is the standard output of \<^verbatim>\<open>ffmpeg -formats\<close>.\<close>

definition get_ffmpeg_supported_formats :: "string \<Rightarrow> FFmpegFormat list" where
  "get_ffmpeg_supported_formats output = parse_lines (split CHR 0x0A output) []"

text \<open>
  \<^verbatim>\<open>sorted(..., key=lambda fmt: fmt.extension)\<close>: strings compare character by character,
  a proper prefix first.
\<close>

definition SUPPORTED_FORMATS :: "string \<Rightarrow> FFmpegFormat list" where
  "SUPPORTED_FORMATS output = sort_key extension (get_ffmpeg_supported_formats output)"

definition SUPPORTED_FORMATS_BY_EXTENSION :: "string \<Rightarrow> (string \<rightharpoonup> FFmpegFormat)" where
  "SUPPORTED_FORMATS_BY_EXTENSION output =
     fold (\<lambda>fmt m. m(extension fmt \<mapsto> fmt)) (SUPPORTED_FORMATS output) Map.empty"

text \<open>The argument is how running \<^verbatim>\<open>ffmpeg -version\<close> ended.\<close>

definition check_ffmpeg_installation :: "proc_result \<Rightarrow> error + bool" where
  "check_ffmpeg_installation version_run =
     (case version_run of
        LaunchFailed \<Rightarrow> Inr False
      | Exited code \<Rightarrow> if code = 0 then Inr True else Inl (CalledProcessError code))"

section \<open>cli.py\<close>

definition log :: "message \<Rightarrow> bool \<Rightarrow> world \<Rightarrow> world" where
  "log msg verbose w = (if verbose then echo msg w else w)"

definition convert_file ::
  "transcoder \<Rightarrow> path \<Rightarrow> string \<Rightarrow> bool \<Rightarrow> bool \<Rightarrow> world \<Rightarrow> (error + bool) \<times> world" where
  "convert_file tr input_path output_format verbose force w =
     (case with_suffix input_path (CHR ''.'' # output_format) of
        Inl e \<Rightarrow> (Inl e, w)
      | Inr output_path \<Rightarrow>
          (case exists_path w output_path of
             Inl e \<Rightarrow> (Inl e, w)
           | Inr there \<Rightarrow>
               if there \<and> \<not> force
               then (Inr False, log (Skipping output_path) verbose w)
               else (case run_ffmpeg tr input_path output_path w of
                       (Inl e, w') \<Rightarrow> (Inl e, w')
                     | (Inr _, w') \<Rightarrow>
                         (Inr True, log (Converted input_path output_path) verbose w'))))"

text \<open>The inner loop of \<^verbatim>\<open>convert_files\<close>, \<^verbatim>\<open>for path in paths\<close>, with the running counter.\<close>

fun convert_paths ::
  "transcoder \<Rightarrow> string \<Rightarrow> bool \<Rightarrow> bool \<Rightarrow> path list \<Rightarrow> int \<Rightarrow> world \<Rightarrow> (error + int) \<times> world" where
  "convert_paths tr output_format verbose force [] converted_count w = (Inr converted_count, w)"
| "convert_paths tr output_format verbose force (p # ps) converted_count w =
     (if suffix p = ''.wav''
      then (case convert_file tr p output_format verbose force w of
              (Inl e, w') \<Rightarrow> (Inl e, w')
            | (Inr success, w') \<Rightarrow>
                convert_paths tr output_format verbose force ps
                  (if success then converted_count + 1 else converted_count) w')
      else convert_paths tr output_format verbose force ps converted_count w)"

text \<open>The outer loop, \<^verbatim>\<open>for output_format in output_formats\<close>; the counter is not reset.\<close>

fun convert_formats ::
  "transcoder \<Rightarrow> path list \<Rightarrow> bool \<Rightarrow> bool \<Rightarrow> string list \<Rightarrow> int \<Rightarrow> world \<Rightarrow> (error + int) \<times> world" where
  "convert_formats tr paths verbose force [] converted_count w = (Inr converted_count, w)"
| "convert_formats tr paths verbose force (output_format # rest) converted_count w =
     (case convert_paths tr output_format verbose force paths converted_count w of
        (Inl e, w') \<Rightarrow> (Inl e, w')
      | (Inr c, w') \<Rightarrow>
          convert_formats tr paths verbose force rest c
            (log (ConvertedTo c output_format) verbose w'))"

definition convert_files ::
  "globber \<Rightarrow> transcoder \<Rightarrow> string \<Rightarrow> string list \<Rightarrow> bool \<Rightarrow> bool \<Rightarrow> world \<Rightarrow> (error + unit) \<times> world" where
  "convert_files gm tr glob_pattern output_formats verbose force w =
     (case glob gm glob_pattern w of
        Inl e \<Rightarrow> (Inl e, w)
      | Inr paths \<Rightarrow>
          (let w1 = log (Scanning glob_pattern) verbose w;
               w2 = log (Found (length paths)) verbose w1
           in case convert_formats tr paths verbose force output_formats 0 w2 of
                (Inl e, w') \<Rightarrow> (Inl e, w')
              | (Inr converted_count, w') \<Rightarrow>
                  (Inr (),
                   log (Summary converted_count (int (length paths) - converted_count))
                     verbose w')))"

text \<open>How the command ends: it returns, or leaves with an exit status, or an exception escapes.\<close>

datatype outcome = Returned | Exit int | Raised error

definition install_hint :: "string \<Rightarrow> string" where
  "install_hint os_type =
     (if os_type = ''Darwin'' then ''For macOS: brew install ffmpeg''
      else if os_type = ''Linux'' then ''For Ubuntu: sudo apt-get install ffmpeg''
      else if os_type = ''Windows''
        then ''For Windows: winget install ffmpeg OR scoop install ffmpeg''
      else ''Please check the ffmpeg installation guide for '' @ os_type @ ''.'')"

text \<open>
  The loop \<^verbatim>\<open>for fmt in output: if fmt not in SUPPORTED_FORMATS_BY_EXTENSION\<close>: the format
  at which it leaves, if any.
\<close>

fun first_unsupported :: "(string \<rightharpoonup> FFmpegFormat) \<Rightarrow> string list \<Rightarrow> string option" where
  "first_unsupported by_extension [] = None"
| "first_unsupported by_extension (fmt # rest) =
     (if by_extension fmt = None then Some fmt else first_unsupported by_extension rest)"

text \<open>
  The command, given the standard output of \<^verbatim>\<open>ffmpeg -formats\<close> from which the module built
  its tables, how \<^verbatim>\<open>ffmpeg -version\<close> ends and what \<^verbatim>\<open>platform.system()\<close> says.
\<close>

definition convert ::
  "string \<Rightarrow> proc_result \<Rightarrow> string \<Rightarrow> globber \<Rightarrow> transcoder \<Rightarrow>
   string \<Rightarrow> string list \<Rightarrow> bool \<Rightarrow> bool \<Rightarrow> world \<Rightarrow> outcome \<times> world" where
  "convert formats_output version_run os_type gm tr glob_pattern output verbose force w =
     (case check_ffmpeg_installation version_run of
        Inl e \<Rightarrow> (Raised e, w)
      | Inr False \<Rightarrow>
          (Exit 1,
           echo (Text (install_hint os_type))
             (echo (Text ''ffmpeg is not installed. Please install it first.'') w))
      | Inr True \<Rightarrow>
          (case first_unsupported (SUPPORTED_FORMATS_BY_EXTENSION formats_output) output of
             Some fmt \<Rightarrow> (Exit 1, echo (UnsupportedOutputFormat fmt) w)
           | None \<Rightarrow>
               (case convert_files gm tr glob_pattern output verbose force w of
                  (Inl e, w') \<Rightarrow> (Exit 1, echo (ErrorOccurred e) w')
                | (Inr _, w') \<Rightarrow> (Returned, w'))))"

text \<open>
  The exit status of the process: 0 when the command returns, the code of \<^verbatim>\<open>typer.Exit\<close>, and
  1 when an exception escapes.
\<close>

fun exit_status :: "outcome \<Rightarrow> int" where
  "exit_status Returned = 0"
| "exit_status (Exit code) = code"
| "exit_status (Raised e) = 1"

section \<open>Reading the trace\<close>

text \<open>
  A conversion run that did not exit with 0, and one that did. A list of events is quiet
  when no run in it failed. The events a call added to the world, and among them the
  number of successful conversion runs: the files the call converted.
\<close>

fun failed_run :: "event \<Rightarrow> bool" where
  "failed_run (Ran i out r) = (r \<noteq> Exited 0)"
| "failed_run (Echoed m) = False"

fun successful_run :: "event \<Rightarrow> bool" where
  "successful_run (Ran i out r) = (r = Exited 0)"
| "successful_run (Echoed m) = False"

definition quiet :: "event list \<Rightarrow> bool" where
  "quiet es = (\<forall>e\<in>set es. \<not> failed_run e)"

definition new_events :: "world \<Rightarrow> world \<Rightarrow> event list" where
  "new_events w w' = drop (length (events w)) (events w')"

definition converted_total :: "world \<Rightarrow> world \<Rightarrow> nat" where
  "converted_total w w' = length (filter successful_run (new_events w w'))"

text \<open>
  What a loop has done so far, from a counter \<open>c\<close>: either it went through, no run failed
  and the counter grew by the number of successful runs; or it stopped with an error, and
  then either no run failed or the failed run is the last event and the error is its own.
\<close>

definition progress :: "int \<Rightarrow> (error + int) \<Rightarrow> event list \<Rightarrow> bool" where
  "progress c r new =
     (case r of
        Inr c' \<Rightarrow> quiet new \<and> c' = c + int (length (filter successful_run new))
      | Inl e \<Rightarrow> quiet new \<or>
          (\<exists>pre i out res. new = pre @ [Ran i out res] \<and> quiet pre \<and> res \<noteq> Exited 0
             \<and> e = error_of res))"

text \<open>
  The lines \<^verbatim>\<open>convert_files\<close> prints itself, and the trace without them: the conversion runs
  and the lines of \<^verbatim>\<open>convert_file\<close>. Two worlds show the same effects when their files and
  these traces agree.
\<close>

fun batch_line :: "event \<Rightarrow> bool" where
  "batch_line (Echoed (Scanning pat)) = True"
| "batch_line (Echoed (Found n)) = True"
| "batch_line (Echoed (ConvertedTo c fmt)) = True"
| "batch_line (Echoed (Summary c s)) = True"
| "batch_line e = False"

definition per_file_trace :: "world \<Rightarrow> event list" where
  "per_file_trace w = filter (\<lambda>e. \<not> batch_line e) (events w)"

definition same_effects :: "world \<Rightarrow> world \<Rightarrow> bool" where
  "same_effects w1 w2 =
     (files w1 = files w2 \<and> stat_errors w1 = stat_errors w2
      \<and> per_file_trace w1 = per_file_trace w2)"

section \<open>The words of the specification\<close>

text \<open>
  A candidate is a discovered file with the accepted source extension.
\<close>

definition candidates :: "path list \<Rightarrow> path list" where
  "candidates paths = filter (\<lambda>p. suffix p = ''.wav'') paths"

text \<open>
  The conversion tasks are the cross product of the requested formats and the candidates:
  outer loop over the formats in the caller's order, inner loop over the candidates in
  discovery order. The batch calls the single-file conversion on each task in that order
  and stops at the first that fails.
\<close>

definition conversion_tasks :: "string list \<Rightarrow> path list \<Rightarrow> (string \<times> path) list" where
  "conversion_tasks output_formats paths =
     concat (map (\<lambda>fmt. map (\<lambda>p. (fmt, p)) (candidates paths)) output_formats)"

fun convert_each ::
  "transcoder \<Rightarrow> bool \<Rightarrow> bool \<Rightarrow> (string \<times> path) list \<Rightarrow> world \<Rightarrow> (error + unit) \<times> world" where
  "convert_each tr verbose force [] w = (Inr (), w)"
| "convert_each tr verbose force ((fmt, p) # tasks) w =
     (case convert_file tr p fmt verbose force w of
        (Inl e, w') \<Rightarrow> (Inl e, w')
      | (Inr _, w') \<Rightarrow> convert_each tr verbose force tasks w')"


fun join :: "char \<Rightarrow> string list \<Rightarrow> string" where
  "join sep [] = []"
| "join sep [piece] = piece"
| "join sep (piece # next_piece # pieces) = piece @ sep # join sep (next_piece # pieces)"

text \<open>
  A text ends with another. A transcoder creates its output when a run that exits with 0
  leaves the output path in place and every other path as it was. The destinations of a
  format are the paths \<^verbatim>\<open>with_suffix\<close> derives from the candidates.
\<close>

definition ends_with :: "string \<Rightarrow> string \<Rightarrow> bool" where
  "ends_with e s = (take (length e) (rev s) = rev e)"

definition creates_output :: "transcoder \<Rightarrow> bool" where
  "creates_output tr =
     (\<forall>i out fs fs'. tr i out fs = (Exited 0, fs') \<longrightarrow> set fs' = insert out (set fs))"

definition destinations :: "string \<Rightarrow> path list \<Rightarrow> path set" where
  "destinations fmt paths =
     {d. \<exists>p\<in>set (candidates paths). with_suffix p (CHR ''.'' # fmt) = Inr d}"

section \<open>Stub collaborators\<close>

text \<open>
  Collaborators to run the program against: a transcoder that always exits with 0 and
  leaves its output path in place, and one that exits with 1 on one given input and behaves
  like the first elsewhere. For \<^verbatim>\<open>Path().glob\<close>, a stand-in on a flat directory for patterns
  of literal characters, \<^verbatim>\<open>*\<close> and \<^verbatim>\<open>?\<close>; it refuses the empty pattern as \<^verbatim>\<open>pathlib\<close> does, and
  patterns with a separator as out of its reach.
\<close>

definition stub_ffmpeg :: transcoder where
  "stub_ffmpeg input_path output_path fs =
     (Exited 0, if output_path \<in> set fs then fs else fs @ [output_path])"

definition stub_ffmpeg_failing_on :: "path \<Rightarrow> transcoder" where
  "stub_ffmpeg_failing_on bad input_path output_path fs =
     (if input_path = bad then (Exited 1, fs) else stub_ffmpeg input_path output_path fs)"

fun fnmatch :: "string \<Rightarrow> string \<Rightarrow> bool" where
  "fnmatch [] [] = True"
| "fnmatch [] (c # s) = False"
| "fnmatch (p # pat) [] = (p = CHR ''*'' \<and> fnmatch pat [])"
| "fnmatch (p # pat) (c # s) =
     (if p = CHR ''*'' then fnmatch pat (c # s) \<or> fnmatch (p # pat) s
      else (p = CHR ''?'' \<or> p = c) \<and> fnmatch pat s)"

definition stub_glob :: globber where
  "stub_glob glob_pattern =
     (if glob_pattern = [] then Inl ValueError
      else if CHR ''/'' \<in> set glob_pattern then Inl NotImplementedError
      else Inr (\<lambda>p. CHR ''/'' \<notin> set p \<and> fnmatch glob_pattern p))"

section \<open>What a step leaves in the world\<close>

lemma invocations_append [simp]:
  "invocations (w\<lparr>events := events w @ es\<rparr>) = invocations w @ concat (map invocation_of es)"
  by (simp add: invocations_def)

lemma echoed_append [simp]:
  "echoed (w\<lparr>events := events w @ es\<rparr>) = echoed w @ concat (map echo_of es)"
  by (simp add: echoed_def)

lemma invocations_files_update [simp]: "invocations (w\<lparr>files := fs\<rparr>) = invocations w"
  by (simp add: invocations_def)

lemma echoed_files_update [simp]: "echoed (w\<lparr>files := fs\<rparr>) = echoed w"
  by (simp add: echoed_def)

lemma log_simps [simp]:
  "files (log msg verbose w) = files w"
  "stat_errors (log msg verbose w) = stat_errors w"
  "invocations (log msg verbose w) = invocations w"
  "events (log msg verbose w) = events w @ (if verbose then [Echoed msg] else [])"
  "echoed (log msg verbose w) = echoed w @ (if verbose then [msg] else [])"
  by (simp_all add: log_def echo_def)

lemma exists_path_cong:
  "files w1 = files w2 \<Longrightarrow> stat_errors w1 = stat_errors w2 \<Longrightarrow> exists_path w1 p = exists_path w2 p"
  by (simp add: exists_path_def split: option.splits)

lemma exists_path_log [simp]: "exists_path (log msg verbose w) p = exists_path w p"
  by (simp add: exists_path_def split: option.splits)

lemma run_ffmpeg_stat_errors [simp]:
  "stat_errors (snd (run_ffmpeg tr i out w)) = stat_errors w"
  by (simp add: run_ffmpeg_def split: prod.splits proc_result.splits)

lemma convert_file_unfold:
  assumes "with_suffix p (CHR ''.'' # fmt) = Inr out" "exists_path w out = Inr there"
  shows "convert_file tr p fmt verbose force w =
           (if there \<and> \<not> force then (Inr False, log (Skipping out) verbose w)
            else (case run_ffmpeg tr p out w of
                    (Inl e, w') \<Rightarrow> (Inl e, w')
                  | (Inr _, w') \<Rightarrow> (Inr True, log (Converted p out) verbose w')))"
  using assms by (simp add: convert_file_def)

lemma convert_file_stat_error:
  assumes "with_suffix p (CHR ''.'' # fmt) = Inr out" "exists_path w out = Inl e"
  shows "convert_file tr p fmt verbose force w = (Inl e, w)"
  using assms by (simp add: convert_file_def)

lemma convert_file_stat_errors [simp]:
  "stat_errors (snd (convert_file tr p fmt verbose force w)) = stat_errors w"
proof -
  have "stat_errors (snd (case run_ffmpeg tr p out w of
                      (Inl e, w') \<Rightarrow> (Inl e, w')
                    | (Inr u, w') \<Rightarrow> (Inr True, log msg verbose w'))) = stat_errors w"
    for out msg
    using run_ffmpeg_stat_errors [of tr p out w]
    by (cases "run_ffmpeg tr p out w") (auto split: sum.splits)
  then show ?thesis
    by (auto simp: convert_file_def split: sum.splits)
qed

lemma convert_paths_creates_stat:
  "convert_paths tr fmt verbose force ps c w = (r, w') \<Longrightarrow> stat_errors w' = stat_errors w"
proof (induction ps arbitrary: c w)
  case Nil
  then show ?case by simp
next
  case (Cons p ps)
  show ?case
  proof (cases "suffix p = ''.wav''")
    case False
    with Cons show ?thesis by simp
  next
    case True
    obtain r1 w1 where cf: "convert_file tr p fmt verbose force w = (r1, w1)"
      by (cases "convert_file tr p fmt verbose force w")
    then have s: "stat_errors w1 = stat_errors w"
      using convert_file_stat_errors [of tr p fmt verbose force w] by simp
    show ?thesis
    proof (cases r1)
      case (Inl e)
      with Cons.prems True cf s show ?thesis by simp
    next
      case (Inr b)
      with Cons.prems True cf
      have "convert_paths tr fmt verbose force ps (if b then c + 1 else c) w1 = (r, w')" by simp
      from Cons.IH [OF this] s show ?thesis by simp
    qed
  qed
qed

lemma run_ffmpeg_events:
  "run_ffmpeg tr i out w = (r, w') \<Longrightarrow>
     events w' = events w @ [Ran i out (fst (tr i out (files w)))]"
  by (auto simp: run_ffmpeg_def split: prod.splits proc_result.splits)

lemma run_ffmpeg_result:
  "run_ffmpeg tr i out w = (r, w') \<Longrightarrow>
     r = (if fst (tr i out (files w)) = Exited 0 then Inr ()
          else Inl (error_of (fst (tr i out (files w)))))"
  by (auto simp: run_ffmpeg_def split: prod.splits proc_result.splits)

lemma quiet_simps [simp]:
  "quiet []" "quiet (e # es) = (\<not> failed_run e \<and> quiet es)"
  "quiet (xs @ ys) = (quiet xs \<and> quiet ys)"
  by (auto simp: quiet_def)

lemma progress_append:
  assumes "quiet new1" "progress (c + int (length (filter successful_run new1))) r new2"
  shows "progress c r (new1 @ new2)"
proof (cases r)
  case (Inr c')
  with assms show ?thesis by (simp add: progress_def)
next
  case (Inl e)
  with assms show ?thesis
    apply (simp add: progress_def)
    apply (erule disjE)
     apply simp
    apply (rule disjI2)
    apply clarify
    subgoal for pre i out res
      apply (rule exI [of _ "new1 @ pre"])
      apply simp
      done
    done
qed

lemma convert_file_progress:
  assumes "convert_file tr p fmt verbose force w = (r, w')"
  shows "\<exists>new. events w' = events w @ new
           \<and> progress c (map_sum id (\<lambda>b. if b then c + 1 else c) r) new"
proof (cases "with_suffix p (CHR ''.'' # fmt)")
  case (Inl e)
  with assms show ?thesis by (auto simp: convert_file_def progress_def)
next
  case out: (Inr out)
  show ?thesis
  proof (cases "exists_path w out")
    case (Inl e)
    from assms convert_file_stat_error [OF out Inl] show ?thesis
      by (auto simp: progress_def)
  next
    case (Inr there)
    note cf = convert_file_unfold [OF out Inr, of tr verbose force]
    show ?thesis
    proof (cases "there \<and> \<not> force")
      case True
      with assms cf show ?thesis by (auto simp: progress_def)
    next
      case False
      obtain r1 w1 where run: "run_ffmpeg tr p out w = (r1, w1)"
        by (cases "run_ffmpeg tr p out w")
      note ev = run_ffmpeg_events [OF run] and res = run_ffmpeg_result [OF run]
      show ?thesis
      proof (cases r1)
        case (Inl e)
        with assms cf False run ev res show ?thesis
          by (auto simp: progress_def split: if_splits)
      next
        case (Inr u)
        with assms cf False run ev res show ?thesis
          by (auto simp: progress_def split: if_splits)
      qed
    qed
  qed
qed

lemma convert_paths_progress:
  "convert_paths tr fmt verbose force ps c w = (r, w') \<Longrightarrow>
     \<exists>new. events w' = events w @ new \<and> progress c r new"
proof (induction ps arbitrary: c w)
  case Nil
  then show ?case by (auto simp: progress_def)
next
  case (Cons p ps)
  show ?case
  proof (cases "suffix p = ''.wav''")
    case False
    with Cons show ?thesis by simp
  next
    case True
    obtain r1 w1 where cf: "convert_file tr p fmt verbose force w = (r1, w1)"
      by (cases "convert_file tr p fmt verbose force w")
    from convert_file_progress [OF cf, of c] obtain new1 where
      n1: "events w1 = events w @ new1"
        "progress c (map_sum id (\<lambda>b. if b then c + 1 else c) r1) new1" by blast
    show ?thesis
    proof (cases r1)
      case (Inl e)
      with Cons.prems True cf n1 show ?thesis by auto
    next
      case (Inr b)
      let ?c1 = "if b then c + 1 else c"
      from Cons.prems True cf Inr
      have rest: "convert_paths tr fmt verbose force ps ?c1 w1 = (r, w')" by simp
      from Cons.IH [OF rest] obtain new2 where
        n2: "events w' = events w1 @ new2" "progress ?c1 r new2" by blast
      from n1 Inr have q: "quiet new1" "?c1 = c + int (length (filter successful_run new1))"
        by (simp_all add: progress_def)
      have "progress c r (new1 @ new2)"
        using progress_append [OF q(1), of c r new2] n2(2) q(2) by simp
      with n1 n2 show ?thesis by auto
    qed
  qed
qed

lemma convert_formats_progress:
  "convert_formats tr paths verbose force fmts c w = (r, w') \<Longrightarrow>
     \<exists>new. events w' = events w @ new \<and> progress c r new"
proof (induction fmts arbitrary: c w)
  case Nil
  then show ?case by (auto simp: progress_def)
next
  case (Cons fmt fmts)
  obtain r1 w1 where cp: "convert_paths tr fmt verbose force paths c w = (r1, w1)"
    by (cases "convert_paths tr fmt verbose force paths c w")
  from convert_paths_progress [OF cp] obtain new1 where
    n1: "events w1 = events w @ new1" "progress c r1 new1" by blast
  show ?case
  proof (cases r1)
    case (Inl e)
    with Cons.prems cp n1 show ?thesis by auto
  next
    case (Inr c1)
    let ?w2 = "log (ConvertedTo c1 fmt) verbose w1"
    from Cons.prems cp Inr
    have rest: "convert_formats tr paths verbose force fmts c1 ?w2 = (r, w')" by simp
    from Cons.IH [OF rest] obtain new2 where
      n2: "events w' = events ?w2 @ new2" "progress c1 r new2" by blast
    let ?mid = "new1 @ (if verbose then [Echoed (ConvertedTo c1 fmt)] else [])"
    from n1 Inr have q: "quiet ?mid" "c1 = c + int (length (filter successful_run ?mid))"
      by (simp_all add: progress_def)
    have "progress c r (?mid @ new2)"
      using progress_append [OF q(1), of c r new2] n2(2) q(2) by simp
    with n1 n2 show ?thesis by (intro exI [of _ "?mid @ new2"]) simp
  qed
qed


lemma progress_fail_fast:
  assumes "progress c r new" "new = pre @ Ran i out res # post" "res \<noteq> Exited 0"
  shows "post = [] \<and> r = Inl (error_of res)"
proof -
  from assms(2,3) have nq: "\<not> quiet new" by simp
  with assms(1) obtain e pre' i' out' res' where
    r: "r = Inl e" and new: "new = pre' @ [Ran i' out' res']" and q: "quiet pre'"
    and e: "e = error_of res'"
    by (cases r) (auto simp: progress_def)
  show ?thesis
  proof (cases "post = []")
    case True
    with assms(2) new have "Ran i out res = Ran i' out' res'" by simp
    with r e True show ?thesis by simp
  next
    case False
    then obtain post' l where "post = post' @ [l]" by (metis rev_exhaust)
    with assms(2) new have "pre' = pre @ Ran i out res # post'" by simp
    with q assms(3) show ?thesis by simp
  qed
qed

lemma convert_files_progress:
  assumes "convert_files gm tr pat fmts verbose force w = (r, w')"
  shows "\<exists>new. events w' = events w @ new \<and> progress 0 (map_sum id (\<lambda>_. int (length (filter successful_run new))) r) new"
proof (cases "glob gm pat w")
  case (Inl e)
  with assms show ?thesis by (auto simp: convert_files_def progress_def)
next
  case (Inr paths)
  let ?w2 = "log (Found (length paths)) verbose (log (Scanning pat) verbose w)"
  obtain rc w3 where cf: "convert_formats tr paths verbose force fmts 0 ?w2 = (rc, w3)"
    by (cases "convert_formats tr paths verbose force fmts 0 ?w2")
  from convert_formats_progress [OF cf] obtain new where
    n: "events w3 = events ?w2 @ new" "progress 0 rc new" by blast
  let ?pre = "(if verbose then [Echoed (Scanning pat)] else []) @ (if verbose then [Echoed (Found (length paths))] else [])"
  have qp: "quiet ?pre" "length (filter successful_run ?pre) = 0" by simp_all
  show ?thesis
  proof (cases rc)
    case (Inl e)
    with assms Inr cf have "r = Inl e" "w' = w3" by (simp_all add: convert_files_def Let_def)
    moreover have "progress 0 rc (?pre @ new)"
      using progress_append [OF qp(1), of 0 rc new] n(2) qp(2) by simp
    ultimately show ?thesis using n(1) Inl by (intro exI [of _ "?pre @ new"]) simp
  next
    case (Inr c)
    let ?post = "if verbose then [Echoed (Summary c (int (length paths) - c))] else []"
    from assms \<open>glob gm pat w = Inr paths\<close> cf Inr
    have r: "r = Inr ()" "w' = log (Summary c (int (length paths) - c)) verbose w3"
      by (simp_all add: convert_files_def Let_def)
    from n(2) Inr have "quiet new" by (simp add: progress_def)
    then have "quiet (?pre @ new @ ?post)" by simp
    then show ?thesis using n(1) r
      by (intro exI [of _ "?pre @ new @ ?post"]) (simp add: progress_def)
  qed
qed

lemma convert_files_summary_line:
  assumes "convert_files gm tr pat fmts True force w = (Inr u, w')"
  shows "\<exists>paths. glob gm pat w = Inr paths
           \<and> last (echoed w') = Summary (int (converted_total w w'))
                (int (length paths) - int (converted_total w w'))"
proof (cases "glob gm pat w")
  case (Inl e)
  with assms show ?thesis by (simp add: convert_files_def)
next
  case (Inr paths)
  let ?w2 = "log (Found (length paths)) True (log (Scanning pat) True w)"
  obtain rc w3 where cf: "convert_formats tr paths True force fmts 0 ?w2 = (rc, w3)"
    by (cases "convert_formats tr paths True force fmts 0 ?w2")
  with assms Inr obtain c where rc: "rc = Inr c"
    and w': "w' = log (Summary c (int (length paths) - c)) True w3"
    by (cases rc) (auto simp: convert_files_def Let_def)
  from convert_formats_progress [OF cf] rc obtain new where
    n: "events w3 = events ?w2 @ new" "c = int (length (filter successful_run new))"
    by (auto simp: progress_def)
  have "new_events w w' = [Echoed (Scanning pat), Echoed (Found (length paths))] @ new
          @ [Echoed (Summary c (int (length paths) - c))]"
    using n(1) w' by (simp add: new_events_def)
  then have "converted_total w w' = length (filter successful_run new)"
    by (simp add: converted_total_def)
  with n(2) w' Inr show ?thesis by simp
qed


section \<open>The batch, task by task\<close>

lemma same_effects_refl [simp]: "same_effects w w"
  by (simp add: same_effects_def)

lemma same_effects_log_batch:
  "batch_line (Echoed msg) \<Longrightarrow> same_effects w1 w2 \<Longrightarrow> same_effects (log msg verbose w1) w2"
  by (simp add: same_effects_def per_file_trace_def)

lemma run_ffmpeg_same_effects:
  assumes "same_effects w1 w2"
  shows "fst (run_ffmpeg tr i out w1) = fst (run_ffmpeg tr i out w2)
       \<and> same_effects (snd (run_ffmpeg tr i out w1)) (snd (run_ffmpeg tr i out w2))"
  using assms
  by (auto simp: run_ffmpeg_def same_effects_def per_file_trace_def
           split: prod.splits proc_result.splits)

lemma convert_file_same_effects:
  assumes "same_effects w1 w2"
  shows "fst (convert_file tr p fmt verbose force w1) = fst (convert_file tr p fmt verbose force w2)
       \<and> same_effects (snd (convert_file tr p fmt verbose force w1))
                      (snd (convert_file tr p fmt verbose force w2))"
proof (cases "with_suffix p (CHR ''.'' # fmt)")
  case (Inl e)
  with assms show ?thesis by (simp add: convert_file_def)
next
  case out: (Inr out)
  from assms have ex: "exists_path w1 out = exists_path w2 out"
    by (intro exists_path_cong) (simp_all add: same_effects_def)
  show ?thesis
  proof (cases "exists_path w2 out")
    case (Inl e)
    with ex have "exists_path w1 out = Inl e" by simp
    from convert_file_stat_error [OF out this] convert_file_stat_error [OF out Inl] assms
    show ?thesis by simp
  next
    case (Inr there)
    with ex have e1: "exists_path w1 out = Inr there" by simp
    note c1 = convert_file_unfold [OF out e1, of tr verbose force]
      and c2 = convert_file_unfold [OF out Inr, of tr verbose force]
    show ?thesis
    proof (cases "there \<and> \<not> force")
      case True
      with c1 c2 assms show ?thesis
        by (simp add: same_effects_def per_file_trace_def)
    next
      case False
      obtain r1 v1 where a: "run_ffmpeg tr p out w1 = (r1, v1)" by (cases "run_ffmpeg tr p out w1")
      obtain r2 v2 where b: "run_ffmpeg tr p out w2 = (r2, v2)" by (cases "run_ffmpeg tr p out w2")
      from run_ffmpeg_same_effects [OF assms, of tr p out] a b
      have "r1 = r2" "same_effects v1 v2" by simp_all
      with c1 c2 False a b show ?thesis
        by (cases r2) (auto simp: same_effects_def per_file_trace_def)
    qed
  qed
qed

lemma convert_each_append:
  "convert_each tr verbose force (ts1 @ ts2) w =
     (case convert_each tr verbose force ts1 w of
        (Inl e, w') \<Rightarrow> (Inl e, w')
      | (Inr _, w') \<Rightarrow> convert_each tr verbose force ts2 w')"
  by (induction ts1 arbitrary: w) (auto split: prod.splits sum.splits)

lemma convert_paths_refines:
  assumes "same_effects w1 w2"
  shows "map_sum id (\<lambda>_. ()) (fst (convert_paths tr fmt verbose force ps c w1))
           = fst (convert_each tr verbose force (map (\<lambda>p. (fmt, p)) (candidates ps)) w2)
       \<and> same_effects (snd (convert_paths tr fmt verbose force ps c w1))
           (snd (convert_each tr verbose force (map (\<lambda>p. (fmt, p)) (candidates ps)) w2))"
  using assms
proof (induction ps arbitrary: c w1 w2)
  case Nil
  then show ?case by (simp add: candidates_def)
next
  case (Cons p ps)
  show ?case
  proof (cases "suffix p = ''.wav''")
    case False
    with Cons.IH [OF Cons.prems] show ?thesis by (simp add: candidates_def)
  next
    case True
    obtain r1 v1 where a: "convert_file tr p fmt verbose force w1 = (r1, v1)"
      by (cases "convert_file tr p fmt verbose force w1")
    obtain r2 v2 where b: "convert_file tr p fmt verbose force w2 = (r2, v2)"
      by (cases "convert_file tr p fmt verbose force w2")
    from convert_file_same_effects [OF Cons.prems, of tr p fmt verbose force] a b
    have eq: "r1 = r2" "same_effects v1 v2" by simp_all
    show ?thesis
    proof (cases r2)
      case (Inl e)
      with True a b eq show ?thesis by (simp add: candidates_def)
    next
      case (Inr s)
      with True a b eq Cons.IH [OF eq(2)] show ?thesis by (simp add: candidates_def)
    qed
  qed
qed

lemma convert_formats_refines:
  assumes "same_effects w1 w2"
  shows "map_sum id (\<lambda>_. ()) (fst (convert_formats tr ps verbose force fmts c w1))
           = fst (convert_each tr verbose force (conversion_tasks fmts ps) w2)
       \<and> same_effects (snd (convert_formats tr ps verbose force fmts c w1))
           (snd (convert_each tr verbose force (conversion_tasks fmts ps) w2))"
  using assms
proof (induction fmts arbitrary: c w1 w2)
  case Nil
  then show ?case by (simp add: conversion_tasks_def)
next
  case (Cons fmt fmts)
  let ?ts = "map (\<lambda>p. (fmt, p)) (candidates ps)"
  obtain r1 v1 where a: "convert_paths tr fmt verbose force ps c w1 = (r1, v1)"
    by (cases "convert_paths tr fmt verbose force ps c w1")
  obtain r2 v2 where b: "convert_each tr verbose force ?ts w2 = (r2, v2)"
    by (cases "convert_each tr verbose force ?ts w2")
  from convert_paths_refines [OF Cons.prems, of tr fmt verbose force ps c] a b
  have eq: "map_sum id (\<lambda>_. ()) r1 = r2" "same_effects v1 v2" by simp_all
  have tasks: "conversion_tasks (fmt # fmts) ps = ?ts @ conversion_tasks fmts ps"
    by (simp add: conversion_tasks_def)
  show ?case
  proof (cases r1)
    case (Inl e)
    with a b eq show ?thesis by (auto simp: tasks convert_each_append)
  next
    case (Inr c1)
    have "same_effects (log (ConvertedTo c1 fmt) verbose v1) v2"
      using eq(2) by (simp add: same_effects_log_batch)
    from Cons.IH [OF this, of c1] Inr a b eq show ?thesis
      by (auto simp: tasks convert_each_append)
  qed
qed

lemma convert_files_refines:
  assumes "gm glob_pattern = Inr m"
  shows "fst (convert_files gm tr glob_pattern fmts verbose force w)
           = fst (convert_each tr verbose force (conversion_tasks fmts (filter m (files w))) w)
       \<and> same_effects (snd (convert_files gm tr glob_pattern fmts verbose force w))
           (snd (convert_each tr verbose force (conversion_tasks fmts (filter m (files w))) w))"
proof -
  let ?paths = "filter m (files w)"
  let ?w2 = "log (Found (length ?paths)) verbose (log (Scanning glob_pattern) verbose w)"
  have s: "same_effects ?w2 w" by (simp add: same_effects_log_batch)
  obtain r1 v1 where a: "convert_formats tr ?paths verbose force fmts 0 ?w2 = (r1, v1)"
    by (cases "convert_formats tr ?paths verbose force fmts 0 ?w2")
  from convert_formats_refines [OF s, of tr ?paths verbose force fmts 0] a
  have eq: "map_sum id (\<lambda>_. ()) r1 = fst (convert_each tr verbose force (conversion_tasks fmts ?paths) w)"
    "same_effects v1 (snd (convert_each tr verbose force (conversion_tasks fmts ?paths) w))"
    by simp_all
  show ?thesis
  proof (cases r1)
    case (Inl e)
    with assms a eq show ?thesis by (simp add: convert_files_def glob_def Let_def)
  next
    case (Inr c)
    with assms a eq show ?thesis
      by (simp add: convert_files_def glob_def Let_def same_effects_log_batch)
  qed
qed


lemma conversion_tasks_candidates:
  "snd ` set (conversion_tasks output_formats paths) \<subseteq> set (candidates paths)"
  by (auto simp: conversion_tasks_def)

section \<open>Suffixes\<close>

lemma takeWhile_dropWhile_dot:
  assumes "c \<in> set xs"
  shows "\<exists>rest. xs = takeWhile (\<lambda>x. x \<noteq> c) xs @ c # rest \<and> rest = tl (dropWhile (\<lambda>x. x \<noteq> c) xs)"
proof -
  from assms have "dropWhile (\<lambda>x. x \<noteq> c) xs \<noteq> []" by (auto simp: dropWhile_eq_Nil_conv)
  moreover then have "hd (dropWhile (\<lambda>x. x \<noteq> c) xs) = c"
    using hd_dropWhile [of "\<lambda>x. x \<noteq> c" xs] by simp
  ultimately have "dropWhile (\<lambda>x. x \<noteq> c) xs = c # tl (dropWhile (\<lambda>x. x \<noteq> c) xs)"
    by (metis list.collapse)
  then show ?thesis by (metis takeWhile_dropWhile_id)
qed

lemma suffix_wav_shape:
  assumes "suffix q = ''.wav''"
  shows "\<exists>rest dr. rev q = ''vaw.'' @ rest @ dr \<and> rest \<noteq> [] \<and> CHR ''/'' \<notin> set rest
            \<and> (dr = [] \<or> hd dr = CHR ''/'')"
proof -
  define rn where "rn = takeWhile (\<lambda>c. c \<noteq> CHR ''/'') (rev q)"
  define dr where "dr = dropWhile (\<lambda>c. c \<noteq> CHR ''/'') (rev q)"
  define t where "t = takeWhile (\<lambda>c. c \<noteq> CHR ''.'') rn"
  from assms have c: "CHR ''.'' \<in> set rn" "rev t = ''wav''" "Suc (length t) < length rn"
    by (auto simp: suffix_def name_def Let_def rn_def t_def split: if_splits)
  from c(2) have "rev (rev t) = rev ''wav''" by (rule arg_cong)
  then have t: "t = ''vaw''" by simp
  from takeWhile_dropWhile_dot [OF c(1)] obtain rest where
    rn: "rn = t @ CHR ''.'' # rest" unfolding t_def by blast
  with t c(3) have rest: "rest \<noteq> []" by auto
  have "\<forall>x\<in>set rn. x \<noteq> CHR ''/''" unfolding rn_def by (auto dest: set_takeWhileD)
  with rn have ns: "CHR ''/'' \<notin> set rest" by auto
  have "rev q = rn @ dr" unfolding rn_def dr_def by simp
  with rn t have "rev q = ''vaw.'' @ rest @ dr" by simp
  moreover have "dr = [] \<or> hd dr = CHR ''/''"
    unfolding dr_def using hd_dropWhile [of "\<lambda>c. c \<noteq> CHR ''/''" "rev q"] by auto
  ultimately show ?thesis using rest ns by blast
qed


lemma takeWhile_until_sep:
  assumes "\<forall>x\<in>set xs. P x" "dr = [] \<or> \<not> P (hd dr)"
  shows "takeWhile P (xs @ dr) = xs"
proof -
  from assms(2) have "takeWhile P dr = []" by (cases dr) auto
  with assms(1) show ?thesis by (simp add: takeWhile_append2)
qed

lemma with_suffix_wav_again:
  assumes d: "with_suffix q (CHR ''.'' # fmt) = Inr d"
    and q: "suffix q = ''.wav''"
    and sd: "suffix d = ''.wav''"
    and ne: "\<not> ends_with ''.wav'' fmt"
  shows "d = q"
proof -
  from suffix_wav_shape [OF q] obtain rest dr where
    s: "rev q = ''vaw.'' @ rest @ dr" "rest \<noteq> []" "CHR ''/'' \<notin> set rest"
       "dr = [] \<or> hd dr = CHR ''/''" by blast
  from d have f: "CHR ''/'' \<notin> set fmt"
    and dq: "d = take (length q - length (suffix q)) q @ CHR ''.'' # fmt"
    by (auto simp: with_suffix_def split: if_splits)
  from s(1) have "length (rev q) = 4 + length rest + length dr" by simp
  then have lq: "length q = 4 + length rest + length dr" by simp
  have "rev (take (length q - 4) q) = drop 4 (rev q)"
    using lq by (simp add: rev_take)
  also have "\<dots> = rest @ dr" using s(1) by simp
  finally have rt: "rev (take (length q - 4) q) = rest @ dr" .
  have "length (suffix q) = 4" using q by simp
  with dq have "rev d = rev fmt @ CHR ''.'' # rev (take (length q - 4) q)" by simp
  with rt have rd: "rev d = (rev fmt @ CHR ''.'' # rest) @ dr" by simp
  have "takeWhile (\<lambda>c. c \<noteq> CHR ''/'') (rev d) = rev fmt @ CHR ''.'' # rest"
    unfolding rd using f s(3,4) by (intro takeWhile_until_sep) auto
  with sd have t: "rev (takeWhile (\<lambda>c. c \<noteq> CHR ''.'') (rev fmt @ CHR ''.'' # rest)) = ''wav''"
    by (auto simp: suffix_def name_def Let_def split: if_splits)
  from t have "rev (rev (takeWhile (\<lambda>c. c \<noteq> CHR ''.'') (rev fmt @ CHR ''.'' # rest))) = rev ''wav''"
    by (rule arg_cong)
  then have tw: "takeWhile (\<lambda>c. c \<noteq> CHR ''.'') (rev fmt @ CHR ''.'' # rest) = ''vaw''" by simp
  show ?thesis
  proof (cases "CHR ''.'' \<in> set fmt")
    case False
    then have "takeWhile (\<lambda>c. c \<noteq> CHR ''.'') (rev fmt @ CHR ''.'' # rest) = rev fmt"
      by (intro takeWhile_until_sep) auto
    with tw have "rev fmt = ''vaw''" by simp
    with rd s(1) have "rev d = rev q" by simp
    then show ?thesis by simp
  next
    case True
    then have in_rev: "CHR ''.'' \<in> set (rev fmt)" by simp
    from takeWhile_dropWhile_dot [OF in_rev] obtain r2 where
      r2: "rev fmt = takeWhile (\<lambda>c. c \<noteq> CHR ''.'') (rev fmt) @ CHR ''.'' # r2" by blast
    from in_rev have "takeWhile (\<lambda>c. c \<noteq> CHR ''.'') (rev fmt @ CHR ''.'' # rest)
                       = takeWhile (\<lambda>c. c \<noteq> CHR ''.'') (rev fmt)"
      by (intro takeWhile_append1 [where x = "CHR ''.''"]) auto
    with tw have "takeWhile (\<lambda>c. c \<noteq> CHR ''.'') (rev fmt) = ''vaw''" by simp
    with r2 have "rev fmt = ''vaw.'' @ r2" by simp
    then have "ends_with ''.wav'' fmt" by (simp add: ends_with_def)
    with ne show ?thesis by simp
  qed
qed


section \<open>What a batch leaves in the file system\<close>

lemma exists_path_Inr:
  "(exists_path w d = Inr there) = (map_of (stat_errors w) d = None \<and> there = (d \<in> set (files w)))"
  by (auto simp: exists_path_def split: option.splits)

lemma convert_file_creates:
  assumes "creates_output tr" "convert_file tr p fmt verbose False w = (Inr b, w')"
  shows "\<exists>d. with_suffix p (CHR ''.'' # fmt) = Inr d \<and> map_of (stat_errors w) d = None
           \<and> stat_errors w' = stat_errors w
           \<and> set (files w') = insert d (set (files w))"
proof (cases "with_suffix p (CHR ''.'' # fmt)")
  case (Inl e)
  with assms(2) show ?thesis by (simp add: convert_file_def)
next
  case d: (Inr d)
  show ?thesis
  proof (cases "exists_path w d")
    case (Inl e)
    from assms(2) convert_file_stat_error [OF d Inl] show ?thesis by simp
  next
    case (Inr there)
    note cf = convert_file_unfold [OF d Inr, of tr verbose False]
    from Inr have ns: "map_of (stat_errors w) d = None" and th: "there = (d \<in> set (files w))"
      by (simp_all add: exists_path_Inr)
    show ?thesis
    proof (cases there)
      case True
      with assms(2) cf d ns th show ?thesis by auto
    next
      case False
      obtain r1 w1 where run: "run_ffmpeg tr p d w = (r1, w1)" by (cases "run_ffmpeg tr p d w")
      with assms(2) cf False have r1: "r1 = Inr ()" and w': "w' = log (Converted p d) verbose w1"
        by (auto split: sum.splits)
      from run r1 obtain fs' where "tr p d (files w) = (Exited 0, fs')" "files w1 = fs'"
        by (auto simp: run_ffmpeg_def split: prod.splits proc_result.splits if_splits)
      with assms(1) have "set (files w1) = insert d (set (files w))"
        by (auto simp: creates_output_def)
      moreover have "stat_errors w1 = stat_errors w"
        using run_ffmpeg_stat_errors [of tr p d w] run by simp
      ultimately show ?thesis using d w' ns by simp
    qed
  qed
qed

lemma convert_paths_creates:
  assumes "creates_output tr"
  shows "convert_paths tr fmt verbose False ps c w = (Inr c', w') \<Longrightarrow>
     set (files w') = set (files w) \<union> destinations fmt ps
     \<and> stat_errors w' = stat_errors w
     \<and> (\<forall>p\<in>set (candidates ps). \<exists>d. with_suffix p (CHR ''.'' # fmt) = Inr d
            \<and> map_of (stat_errors w) d = None)"
proof (induction ps arbitrary: c w)
  case Nil
  then show ?case by (simp add: destinations_def candidates_def)
next
  case (Cons p ps)
  show ?case
  proof (cases "suffix p = ''.wav''")
    case False
    with Cons.prems have "convert_paths tr fmt verbose False ps c w = (Inr c', w')" by simp
    from Cons.IH [OF this] False show ?thesis
      by (auto simp: destinations_def candidates_def)
  next
    case True
    obtain r1 w1 where cf: "convert_file tr p fmt verbose False w = (r1, w1)"
      by (cases "convert_file tr p fmt verbose False w")
    with Cons.prems True obtain b where r1: "r1 = Inr b"
      and rest: "convert_paths tr fmt verbose False ps (if b then c + 1 else c) w1 = (Inr c', w')"
      by (cases r1) auto
    from convert_file_creates [OF assms] cf r1 obtain d where
      d: "with_suffix p (CHR ''.'' # fmt) = Inr d" "map_of (stat_errors w) d = None"
         "stat_errors w1 = stat_errors w" "set (files w1) = insert d (set (files w))"
      by blast
    have dd: "destinations fmt (p # ps) = insert d (destinations fmt ps)"
      using True d(1) by (auto simp: destinations_def candidates_def)
    from Cons.IH [OF rest] d True show ?thesis
      unfolding dd by (auto simp: candidates_def)
  qed
qed

lemma convert_formats_creates:
  assumes "creates_output tr"
  shows "convert_formats tr ps verbose False fmts c w = (Inr c', w') \<Longrightarrow>
     set (files w') = set (files w) \<union> (\<Union>fmt\<in>set fmts. destinations fmt ps)
     \<and> stat_errors w' = stat_errors w
     \<and> (\<forall>fmt\<in>set fmts. \<forall>p\<in>set (candidates ps).
            \<exists>d. with_suffix p (CHR ''.'' # fmt) = Inr d \<and> map_of (stat_errors w) d = None)"
proof (induction fmts arbitrary: c w)
  case Nil
  then show ?case by simp
next
  case (Cons fmt fmts)
  obtain r1 w1 where cp: "convert_paths tr fmt verbose False ps c w = (r1, w1)"
    by (cases "convert_paths tr fmt verbose False ps c w")
  with Cons.prems obtain c1 where r1: "r1 = Inr c1"
    and rest: "convert_formats tr ps verbose False fmts c1 (log (ConvertedTo c1 fmt) verbose w1)
                 = (Inr c', w')"
    by (cases r1) auto
  from convert_paths_creates [OF assms] cp r1
  have a: "set (files w1) = set (files w) \<union> destinations fmt ps"
     "stat_errors w1 = stat_errors w"
     "\<forall>p\<in>set (candidates ps). \<exists>d. with_suffix p (CHR ''.'' # fmt) = Inr d
        \<and> map_of (stat_errors w) d = None"
    by blast+
  from Cons.IH [OF rest] a show ?case by auto
qed

lemma convert_file_skips:
  assumes "with_suffix p (CHR ''.'' # fmt) = Inr d" "exists_path w d = Inr True"
  shows "convert_file tr p fmt verbose False w = (Inr False, log (Skipping d) verbose w)"
  using assms by (simp add: convert_file_def)

lemma convert_paths_all_skipped:
  assumes "\<forall>p\<in>set (candidates ps). \<exists>d. with_suffix p (CHR ''.'' # fmt) = Inr d
             \<and> exists_path w d = Inr True"
  shows "\<exists>w' new. convert_paths tr fmt verbose False ps c w = (Inr c, w')
           \<and> files w' = files w \<and> events w' = events w @ new
           \<and> (\<forall>e\<in>set new. invocation_of e = [])"
  using assms
proof (induction ps arbitrary: w)
  case Nil
  then show ?case by simp
next
  case (Cons p ps)
  show ?case
  proof (cases "suffix p = ''.wav''")
    case False
    with Cons.prems have "\<forall>p\<in>set (candidates ps). \<exists>d. with_suffix p (CHR ''.'' # fmt) = Inr d
             \<and> exists_path w d = Inr True"
      by (simp add: candidates_def)
    from Cons.IH [OF this] False show ?thesis by simp
  next
    case True
    with Cons.prems obtain d where d: "with_suffix p (CHR ''.'' # fmt) = Inr d"
      "exists_path w d = Inr True"
      by (auto simp: candidates_def)
    let ?w1 = "log (Skipping d) verbose w"
    from Cons.prems have "\<forall>p\<in>set (candidates ps). \<exists>d. with_suffix p (CHR ''.'' # fmt) = Inr d
             \<and> exists_path ?w1 d = Inr True"
      by (simp add: candidates_def)
    from Cons.IH [OF this] obtain w' new where
      r: "convert_paths tr fmt verbose False ps c ?w1 = (Inr c, w')" "files w' = files ?w1"
         "events w' = events ?w1 @ new" "\<forall>e\<in>set new. invocation_of e = []" by blast
    have "convert_paths tr fmt verbose False (p # ps) c w = (Inr c, w')"
      using True convert_file_skips [OF d, of tr verbose] r(1) by simp
    moreover have "events w' = events w @ ((if verbose then [Echoed (Skipping d)] else []) @ new)"
      using r(3) by simp
    moreover have "\<forall>e\<in>set ((if verbose then [Echoed (Skipping d)] else []) @ new). invocation_of e = []"
      using r(4) by auto
    ultimately show ?thesis using r(2) by (metis log_simps(1))
  qed
qed

lemma convert_formats_all_skipped:
  assumes "\<forall>fmt\<in>set fmts. \<forall>p\<in>set (candidates ps).
             \<exists>d. with_suffix p (CHR ''.'' # fmt) = Inr d \<and> exists_path w d = Inr True"
  shows "\<exists>w' new. convert_formats tr ps verbose False fmts c w = (Inr c, w')
           \<and> files w' = files w \<and> events w' = events w @ new
           \<and> (\<forall>e\<in>set new. invocation_of e = [])"
  using assms
proof (induction fmts arbitrary: w)
  case Nil
  then show ?case by simp
next
  case (Cons fmt fmts)
  from Cons.prems have "\<forall>p\<in>set (candidates ps). \<exists>d. with_suffix p (CHR ''.'' # fmt) = Inr d
      \<and> exists_path w d = Inr True"
    by simp
  from convert_paths_all_skipped [OF this, of tr verbose c] obtain w1 new1 where
    a: "convert_paths tr fmt verbose False ps c w = (Inr c, w1)" "files w1 = files w"
       "events w1 = events w @ new1" "\<forall>e\<in>set new1. invocation_of e = []" by blast
  from convert_paths_creates_stat [of tr fmt verbose False ps c w] a(1)
  have st: "stat_errors w1 = stat_errors w" by simp
  let ?w2 = "log (ConvertedTo c fmt) verbose w1"
  have "exists_path ?w2 d = exists_path w d" for d
    using a(2) st by (intro exists_path_cong) simp_all
  with Cons.prems have "\<forall>fmt\<in>set fmts. \<forall>p\<in>set (candidates ps).
             \<exists>d. with_suffix p (CHR ''.'' # fmt) = Inr d \<and> exists_path ?w2 d = Inr True"
    by simp
  from Cons.IH [OF this] obtain w' new2 where
    b: "convert_formats tr ps verbose False fmts c ?w2 = (Inr c, w')" "files w' = files ?w2"
       "events w' = events ?w2 @ new2" "\<forall>e\<in>set new2. invocation_of e = []" by blast
  let ?new = "new1 @ (if verbose then [Echoed (ConvertedTo c fmt)] else []) @ new2"
  have "convert_formats tr ps verbose False (fmt # fmts) c w = (Inr c, w')"
    using a(1) b(1) by simp
  moreover have "events w' = events w @ ?new" using a(3) b(3) by simp
  moreover have "\<forall>e\<in>set ?new. invocation_of e = []" using a(4) b(4) by auto
  moreover have "files w' = files w" using a(2) b(2) by simp
  ultimately show ?case by blast
qed

lemma no_invocations_new:
  assumes "events w' = events w @ new" "\<forall>e\<in>set new. invocation_of e = []"
  shows "invocations w' = invocations w" "converted_total w w' = 0"
proof -
  from assms(2) have c: "concat (map invocation_of new) = []" by simp
  with assms(1) show "invocations w' = invocations w" by (simp add: invocations_def)
  have "\<not> successful_run e" if "e \<in> set new" for e
    using assms(2) that by (cases e) auto
  then have "filter successful_run new = []" by (simp add: filter_empty_conv)
  with assms(1) show "converted_total w w' = 0"
    by (simp add: converted_total_def new_events_def)
qed

lemma creates_output_stub_ffmpeg: "creates_output stub_ffmpeg"
  by (auto simp: creates_output_def stub_ffmpeg_def split: if_splits)

section \<open>The parser\<close>

lemma parse_lines_concat: "parse_lines ls acc = acc @ concat (map line_formats ls)"
  by (induction ls arbitrary: acc) simp_all

lemma get_formats_concat:
  "get_ffmpeg_supported_formats output = concat (map line_formats (split CHR 0x0A output))"
  by (simp add: get_ffmpeg_supported_formats_def parse_lines_concat)









lemma split_not_Nil [simp]: "split sep s \<noteq> []"
  by (induction s) (auto split: list.splits)

lemma join_split: "join sep (split sep s) = s"
proof (induction s)
  case Nil
  show ?case by simp
next
  case (Cons c s)
  obtain piece pieces where sp: "split sep s = piece # pieces"
    by (cases "split sep s") simp_all
  show ?case
  proof (cases "c = sep")
    case True
    with Cons sp show ?thesis by simp
  next
    case False
    with Cons sp show ?thesis by (cases pieces) simp_all
  qed
qed

lemma split_pieces: "list_all (\<lambda>piece. sep \<notin> set piece) (split sep s)"
  by (induction s) (auto split: list.splits)

lemma length_split: "length (split sep s) = Suc (count_list s sep)"
  by (induction s) (auto split: list.splits)

lemma line_formats_Some:
  assumes "pattern_match line = Some (d, e, exts, desc)"
  shows "line_formats line =
           map (\<lambda>ext. \<lparr>is_decoder = (d = Some CHR ''D''), is_encoder = (e = Some CHR ''E''),
                       extension = ext, description = strip desc\<rparr>)
               (split CHR '','' exts)"
  using assms by (simp add: line_formats_def)


section \<open>The command\<close>

lemma first_unsupported_None:
  "(first_unsupported by_extension fmts = None) = (set fmts \<subseteq> dom by_extension)"
  by (induction fmts) auto

lemma first_unsupported_Some:
  "first_unsupported by_extension fmts = Some bad \<Longrightarrow>
     bad \<in> set fmts \<and> by_extension bad = None"
  by (induction fmts) (auto split: if_splits)

lemma first_unsupported_map_option:
  "first_unsupported (\<lambda>k. map_option g (by_extension k)) fmts
     = first_unsupported by_extension fmts"
  by (induction fmts) auto

lemma dom_fold_extension:
  "dom (fold (\<lambda>fmt m. m(extension fmt \<mapsto> fmt)) formats m0) = dom m0 \<union> extension ` set formats"
  by (induction formats arbitrary: m0) auto

lemma dom_SUPPORTED_FORMATS_BY_EXTENSION:
  "dom (SUPPORTED_FORMATS_BY_EXTENSION stdout) = extension ` set (SUPPORTED_FORMATS stdout)"
  by (simp add: SUPPORTED_FORMATS_BY_EXTENSION_def dom_fold_extension)

lemma echo_simps [simp]:
  "files (echo msg w) = files w"
  "invocations (echo msg w) = invocations w"
  "echoed (echo msg w) = echoed w @ [msg]"
  by (simp_all add: echo_def)

lemma first_unsupported_first:
  "set pre \<subseteq> dom by_extension \<Longrightarrow> by_extension bad = None \<Longrightarrow>
     first_unsupported by_extension (pre @ bad # post) = Some bad"
  by (induction pre) auto

lemma first_unsupported_split:
  "first_unsupported by_extension fmts = Some bad \<Longrightarrow>
     \<exists>pre post. fmts = pre @ bad # post \<and> set pre \<subseteq> dom by_extension
        \<and> by_extension bad = None"
proof (induction fmts)
  case Nil
  then show ?case by simp
next
  case (Cons fmt fmts)
  show ?case
  proof (cases "by_extension fmt = None")
    case True
    with Cons.prems have "fmt # fmts = [] @ bad # fmts" "by_extension bad = None" by simp_all
    then show ?thesis by (metis empty_set empty_subsetI)
  next
    case False
    with Cons.prems have "first_unsupported by_extension fmts = Some bad" by simp
    from Cons.IH [OF this] obtain pre post where
      s: "fmts = pre @ bad # post" "set pre \<subseteq> dom by_extension" "by_extension bad = None"
      by blast
    from s(1) have "fmt # fmts = (fmt # pre) @ bad # post" by simp
    moreover from False s(2) have "set (fmt # pre) \<subseteq> dom by_extension" by auto
    ultimately show ?thesis using s(3) by blast
  qed
qed

lemma first_unsupported_dom:
  "dom m1 = dom m2 \<Longrightarrow> first_unsupported m1 fmts = first_unsupported m2 fmts"
proof (induction fmts)
  case Nil
  show ?case by simp
next
  case (Cons fmt fmts)
  have "(m1 fmt = None) = (fmt \<notin> dom m1)" "(m2 fmt = None) = (fmt \<notin> dom m2)"
    by (simp_all add: domIff)
  with Cons.prems have "(m1 fmt = None) = (m2 fmt = None)" by simp
  with Cons show ?case by simp
qed

lemma convert_unsupported:
  assumes "check_ffmpeg_installation version_run = Inr True"
    and "first_unsupported (SUPPORTED_FORMATS_BY_EXTENSION stdout) output_formats = Some bad"
  shows "convert stdout version_run os_type gm tr glob_pattern output_formats verbose force w
         = (Exit 1, echo (UnsupportedOutputFormat bad) w)"
  using assms by (simp add: convert_def)

lemma echo_neq:
  "echo msg w' = echo msg' w \<Longrightarrow> msg = msg'"
proof -
  assume "echo msg w' = echo msg' w"
  then have "events (echo msg w') = events (echo msg' w)" by simp
  then show ?thesis by (simp add: echo_def)
qed

lemma convert_supported:
  assumes "check_ffmpeg_installation version_run = Inr True"
    and "first_unsupported (SUPPORTED_FORMATS_BY_EXTENSION stdout) output_formats = None"
  shows "convert stdout version_run os_type gm tr glob_pattern output_formats verbose force w
         = (case convert_files gm tr glob_pattern output_formats verbose force w of
              (Inl e, w') \<Rightarrow> (Exit 1, echo (ErrorOccurred e) w')
            | (Inr u, w') \<Rightarrow> (Returned, w'))"
  using assms by (simp add: convert_def split: prod.splits sum.splits)

text \<open>Unfolding the program on concrete inputs.\<close>

lemmas run_simps =
  convert_files_def glob_def stub_glob_def convert_file_def with_suffix_def name_def suffix_def
  run_ffmpeg_def stub_ffmpeg_failing_on_def stub_ffmpeg_def log_def echo_def exists_path_def

section \<open>convert_file\<close>

text \<open>
  Claim C3, as amended. Whenever \<^verbatim>\<open>with_suffix\<close> yields a destination for the source path
  and the target extension and the check whether the destination exists does not raise:
  if the destination exists and force is off, \<^verbatim>\<open>convert_file\<close> returns False (skipped),
  runs the transcoder not at all and leaves the file system as it was; if force is on, it
  runs the transcoder exactly once, on (source, destination), whether the destination
  exists or not.
\<close>

theorem convert_file_skips_existing_and_force_runs_once:
  assumes "with_suffix input_path (CHR ''.'' # output_format) = Inr output_path"
  shows "(exists_path w output_path = Inr True \<longrightarrow>
            fst (convert_file tr input_path output_format verbose False w) = Inr False
            \<and> invocations (snd (convert_file tr input_path output_format verbose False w))
                = invocations w
            \<and> files (snd (convert_file tr input_path output_format verbose False w)) = files w)
       \<and> (exists_path w output_path = Inr there \<longrightarrow>
            invocations (snd (convert_file tr input_path output_format verbose True w))
              = invocations w @ [(input_path, output_path)])"
proof (intro conjI impI)
  assume e: "exists_path w output_path = Inr True"
  note cf = convert_file_unfold [OF assms e, of tr verbose False]
  from cf show "fst (convert_file tr input_path output_format verbose False w) = Inr False"
    by simp
  from cf show "invocations (snd (convert_file tr input_path output_format verbose False w))
                = invocations w"
    by simp
  from cf show "files (snd (convert_file tr input_path output_format verbose False w)) = files w"
    by simp
next
  assume e: "exists_path w output_path = Inr there"
  note cf = convert_file_unfold [OF assms e, of tr verbose True]
  obtain r w' where run: "run_ffmpeg tr input_path output_path w = (r, w')"
    by (cases "run_ffmpeg tr input_path output_path w")
  have "invocations w' = invocations w @ [(input_path, output_path)]"
    using run_ffmpeg_events [OF run] by (simp add: invocations_def)
  then show "invocations (snd (convert_file tr input_path output_format verbose True w))
              = invocations w @ [(input_path, output_path)]"
    using cf run by (cases r) simp_all
qed

theorem convert_file_skips_existing_and_force_runs_once_witness:
  "with_suffix ''a.wav'' (CHR ''.'' # ''mp3'') = Inr ''a.mp3''
   \<and> exists_path \<lparr>files = [''a.wav'', ''a.mp3''], stat_errors = [(''b.mp3'', 13)], events = []\<rparr>
        ''a.mp3'' = Inr True
   \<and> fst (convert_file stub_ffmpeg ''a.wav'' ''mp3'' True False
            \<lparr>files = [''a.wav'', ''a.mp3''], stat_errors = [(''b.mp3'', 13)], events = []\<rparr>)
        = Inr False
   \<and> invocations (snd (convert_file stub_ffmpeg ''a.wav'' ''mp3'' True False
            \<lparr>files = [''a.wav'', ''a.mp3''], stat_errors = [(''b.mp3'', 13)], events = []\<rparr>))
        = []
   \<and> files (snd (convert_file stub_ffmpeg ''a.wav'' ''mp3'' True False
            \<lparr>files = [''a.wav'', ''a.mp3''], stat_errors = [(''b.mp3'', 13)], events = []\<rparr>))
        = [''a.wav'', ''a.mp3'']
   \<and> invocations (snd (convert_file stub_ffmpeg ''a.wav'' ''mp3'' True True
            \<lparr>files = [''a.wav'', ''a.mp3''], stat_errors = [(''b.mp3'', 13)], events = []\<rparr>))
        = [(''a.wav'', ''a.mp3'')]"
proof -
  have d: "with_suffix ''a.wav'' (CHR ''.'' # ''mp3'') = Inr ''a.mp3''"
    by (simp add: with_suffix_def name_def suffix_def)
  have e: "exists_path \<lparr>files = [''a.wav'', ''a.mp3''], stat_errors = [(''b.mp3'', 13)], events = []\<rparr>
             ''a.mp3'' = Inr True"
    by (simp add: exists_path_def)
  note t = convert_file_skips_existing_and_force_runs_once
    [OF d, where w = "\<lparr>files = [''a.wav'', ''a.mp3''], stat_errors = [(''b.mp3'', 13)], events = []\<rparr>"
       and tr = stub_ffmpeg and verbose = True and there = True]
  from t [THEN conjunct1, rule_format, OF e] t [THEN conjunct2, rule_format, OF e]
  show ?thesis using d e by (simp add: invocations_def)
qed

text \<open>
  The claim as stated, for every target extension and file system state, fails. For the
  extension \<^verbatim>\<open>x/y\<close> \<^verbatim>\<open>with_suffix\<close> raises \<^verbatim>\<open>ValueError\<close>, and with force on the transcoder is not
  run at all. And when the status of the destination cannot be read (here the directory
  cannot be searched: permission denied, error number 13), the check whether it exists
  raises before force is looked at, and again nothing is run.
\<close>

theorem convert_file_force_invalid_suffix_runs_nothing:
  "convert_file stub_ffmpeg ''a.wav'' ''x/y'' False True
          \<lparr>files = [''a.wav''], stat_errors = [], events = []\<rparr>
     = (Inl ValueError, \<lparr>files = [''a.wav''], stat_errors = [], events = []\<rparr>)
   \<and> invocations \<lparr>files = [''a.wav''], stat_errors = [], events = []\<rparr> = []
   \<and> convert_file stub_ffmpeg ''locked/a.wav'' ''mp3'' False True
          \<lparr>files = [''locked''], stat_errors = [(''locked/a.mp3'', 13)], events = []\<rparr>
     = (Inl (OSError 13),
        \<lparr>files = [''locked''], stat_errors = [(''locked/a.mp3'', 13)], events = []\<rparr>)
   \<and> invocations \<lparr>files = [''locked''], stat_errors = [(''locked/a.mp3'', 13)], events = []\<rparr>
       = []"
  by (simp add: convert_file_def with_suffix_def name_def suffix_def exists_path_def
        invocations_def)

section \<open>convert_files\<close>

text \<open>
  Claim C1, as amended. When a verbose run of \<^verbatim>\<open>convert_files\<close> goes through, the last line
  it prints is the summary; the converted count in it is the number of files converted
  over all target extensions (the successful conversion runs of this call), and the skipped
  count is the number of all paths the pattern matched, whatever their extension, minus
  that converted count.
\<close>

theorem convert_files_reports_found_minus_converted:
  assumes "convert_files gm tr glob_pattern output_formats True force w = (Inr u, w')"
  shows "\<exists>paths. glob gm glob_pattern w = Inr paths
           \<and> last (echoed w') = Summary (int (converted_total w w'))
                (int (length paths) - int (converted_total w w'))"
  using assms by (rule convert_files_summary_line)

theorem convert_files_reports_found_minus_converted_witness:
  "convert_files stub_glob stub_ffmpeg ''*'' [''mp3''] True True
     \<lparr>files = [''a.wav'', ''b.wav'', ''a.mp3''], stat_errors = [], events = []\<rparr>
   = (Inr (),
      \<lparr>files = [''a.wav'', ''b.wav'', ''a.mp3'', ''b.mp3''], stat_errors = [],
       events = [Echoed (Scanning ''*''), Echoed (Found 3),
                 Ran ''a.wav'' ''a.mp3'' (Exited 0), Echoed (Converted ''a.wav'' ''a.mp3''),
                 Ran ''b.wav'' ''b.mp3'' (Exited 0), Echoed (Converted ''b.wav'' ''b.mp3''),
                 Echoed (ConvertedTo 2 ''mp3''), Echoed (Summary 2 1)]\<rparr>)
   \<and> (\<exists>paths. glob stub_glob ''*''
                  \<lparr>files = [''a.wav'', ''b.wav'', ''a.mp3''], stat_errors = [], events = []\<rparr> = Inr paths
          \<and> Summary 2 1 = Summary 2 (int (length paths) - 2))"
proof -
  have run: "convert_files stub_glob stub_ffmpeg ''*'' [''mp3''] True True
     \<lparr>files = [''a.wav'', ''b.wav'', ''a.mp3''], stat_errors = [], events = []\<rparr>
   = (Inr (),
      \<lparr>files = [''a.wav'', ''b.wav'', ''a.mp3'', ''b.mp3''], stat_errors = [],
       events = [Echoed (Scanning ''*''), Echoed (Found 3),
                 Ran ''a.wav'' ''a.mp3'' (Exited 0), Echoed (Converted ''a.wav'' ''a.mp3''),
                 Ran ''b.wav'' ''b.mp3'' (Exited 0), Echoed (Converted ''b.wav'' ''b.mp3''),
                 Echoed (ConvertedTo 2 ''mp3''), Echoed (Summary 2 1)]\<rparr>)"
    by (simp add: run_simps)
  show ?thesis
    using convert_files_reports_found_minus_converted [OF run] run
    by (simp add: echoed_def converted_total_def new_events_def)
qed

text \<open>
  The claim as stated counts the candidates only. With \<^verbatim>\<open>a.wav\<close> and \<^verbatim>\<open>c.txt\<close> matched and
  \<^verbatim>\<open>a.wav\<close> converted, the summary reports 1 skipped, where the one candidate minus the one
  converted file is 0.
\<close>

theorem convert_files_skipped_counts_other_files:
  "echoed (snd (convert_files stub_glob stub_ffmpeg ''*'' [''mp3''] True False
             \<lparr>files = [''a.wav'', ''c.txt''], stat_errors = [], events = []\<rparr>))
     = [Scanning ''*'', Found 2, Converted ''a.wav'' ''a.mp3'', ConvertedTo 1 ''mp3'',
        Summary 1 1]
   \<and> candidates [''a.wav'', ''c.txt''] = [''a.wav'']
   \<and> int (length (candidates [''a.wav'', ''c.txt''])) - 1 \<noteq> 1"
  by (simp add: run_simps echoed_def candidates_def)

text \<open>
  Claim C2 does not hold of the code: the counter is set to 0 once, before the loop over
  the target extensions, so the line printed after the second extension gives the files
  converted so far. Here one file is converted to \<^verbatim>\<open>mp3\<close> and to \<^verbatim>\<open>ogg\<close>, and the line for
  \<^verbatim>\<open>ogg\<close> says 2.
\<close>

theorem convert_files_subtotal_is_cumulative:
  "echoed (snd (convert_files stub_glob stub_ffmpeg ''*.wav'' [''mp3'', ''ogg''] True False
             \<lparr>files = [''a.wav''], stat_errors = [], events = []\<rparr>))
     = [Scanning ''*.wav'', Found 1,
        Converted ''a.wav'' ''a.mp3'', ConvertedTo 1 ''mp3'',
        Converted ''a.wav'' ''a.ogg'', ConvertedTo 2 ''ogg'',
        Summary 2 (- 1)]"
  by (simp add: run_simps echoed_def)

text \<open>
  Claim C4. Whatever the pattern matches, \<^verbatim>\<open>convert_files\<close> ends as, leaves the files as, and
  runs the transcoder and prints the per-file lines exactly as calling \<^verbatim>\<open>convert_file\<close> on the
  conversion tasks one after the other does: the tasks of the first requested format for
  the candidates in discovery order, then those of the next format, and only paths whose
  suffix is \<^verbatim>\<open>.wav\<close> are among them. For the files \<^verbatim>\<open>a.wav\<close>, \<^verbatim>\<open>b.wav\<close>, \<^verbatim>\<open>c.txt\<close> and the target
  \<^verbatim>\<open>mp3\<close> the tasks are \<^verbatim>\<open>a.wav\<close> then \<^verbatim>\<open>b.wav\<close>, and the run converts \<^verbatim>\<open>a.wav\<close> to \<^verbatim>\<open>a.mp3\<close> and then
  \<^verbatim>\<open>b.wav\<close> to \<^verbatim>\<open>b.mp3\<close>, and nothing else.
\<close>

theorem convert_files_cross_product_order:
  "(gm glob_pattern = Inr m \<longrightarrow>
      fst (convert_files gm tr glob_pattern output_formats verbose force w)
        = fst (convert_each tr verbose force
                 (conversion_tasks output_formats (filter m (files w))) w)
      \<and> files (snd (convert_files gm tr glob_pattern output_formats verbose force w))
        = files (snd (convert_each tr verbose force
                 (conversion_tasks output_formats (filter m (files w))) w))
      \<and> per_file_trace (snd (convert_files gm tr glob_pattern output_formats verbose force w))
        = per_file_trace (snd (convert_each tr verbose force
                 (conversion_tasks output_formats (filter m (files w))) w)))
   \<and> conversion_tasks (fmt # output_formats) paths
        = map (\<lambda>p. (fmt, p)) (candidates paths) @ conversion_tasks output_formats paths
   \<and> snd ` set (conversion_tasks output_formats paths) \<subseteq> set (candidates paths)
   \<and> conversion_tasks [''mp3''] [''a.wav'', ''b.wav'', ''c.txt'']
        = [(''mp3'', ''a.wav''), (''mp3'', ''b.wav'')]
   \<and> convert_files stub_glob stub_ffmpeg ''*'' [''mp3''] False False
        \<lparr>files = [''a.wav'', ''b.wav'', ''c.txt''], stat_errors = [], events = []\<rparr>
        = (Inr (),
           \<lparr>files = [''a.wav'', ''b.wav'', ''c.txt'', ''a.mp3'', ''b.mp3''], stat_errors = [],
            events = [Ran ''a.wav'' ''a.mp3'' (Exited 0), Ran ''b.wav'' ''b.mp3'' (Exited 0)]\<rparr>)"
proof (intro conjI impI)
  assume g: "gm glob_pattern = Inr m"
  note r = convert_files_refines
    [where gm = gm and glob_pattern = glob_pattern and m = m and tr = tr
       and fmts = output_formats and verbose = verbose and force = force and w = w, OF g]
  from r show "fst (convert_files gm tr glob_pattern output_formats verbose force w)
        = fst (convert_each tr verbose force
                 (conversion_tasks output_formats (filter m (files w))) w)"
    by simp
  from r show "files (snd (convert_files gm tr glob_pattern output_formats verbose force w))
        = files (snd (convert_each tr verbose force
                 (conversion_tasks output_formats (filter m (files w))) w))"
    by (simp add: same_effects_def)
  from r show "per_file_trace (snd (convert_files gm tr glob_pattern output_formats verbose force w))
        = per_file_trace (snd (convert_each tr verbose force
                 (conversion_tasks output_formats (filter m (files w))) w))"
    by (simp add: same_effects_def)
next
  show "conversion_tasks (fmt # output_formats) paths
        = map (\<lambda>p. (fmt, p)) (candidates paths) @ conversion_tasks output_formats paths"
    by (simp add: conversion_tasks_def)
next
  show "snd ` set (conversion_tasks output_formats paths) \<subseteq> set (candidates paths)"
    by (rule conversion_tasks_candidates)
next
  show "conversion_tasks [''mp3''] [''a.wav'', ''b.wav'', ''c.txt'']
        = [(''mp3'', ''a.wav''), (''mp3'', ''b.wav'')]"
    by (simp add: conversion_tasks_def candidates_def suffix_def name_def)
next
  show "convert_files stub_glob stub_ffmpeg ''*'' [''mp3''] False False
        \<lparr>files = [''a.wav'', ''b.wav'', ''c.txt''], stat_errors = [], events = []\<rparr>
        = (Inr (),
           \<lparr>files = [''a.wav'', ''b.wav'', ''c.txt'', ''a.mp3'', ''b.mp3''], stat_errors = [],
            events = [Ran ''a.wav'' ''a.mp3'' (Exited 0), Ran ''b.wav'' ''b.mp3'' (Exited 0)]\<rparr>)"
    by (simp add: run_simps)
qed

theorem convert_files_cross_product_order_witness:
  "stub_glob ''*'' = Inr (\<lambda>p. CHR ''/'' \<notin> set p \<and> fnmatch ''*'' p)
   \<and> fst (convert_files stub_glob stub_ffmpeg ''*'' [''mp3'', ''ogg''] True False
           \<lparr>files = [''a.wav'', ''c.txt'', ''b.wav'', ''a.mp3''], stat_errors = [], events = []\<rparr>) = Inr ()
   \<and> per_file_trace (snd (convert_files stub_glob stub_ffmpeg ''*'' [''mp3'', ''ogg''] True False
           \<lparr>files = [''a.wav'', ''c.txt'', ''b.wav'', ''a.mp3''], stat_errors = [], events = []\<rparr>))
      = per_file_trace (snd (convert_each stub_ffmpeg True False
           [(''mp3'', ''a.wav''), (''mp3'', ''b.wav''), (''ogg'', ''a.wav''), (''ogg'', ''b.wav'')]
           \<lparr>files = [''a.wav'', ''c.txt'', ''b.wav'', ''a.mp3''], stat_errors = [], events = []\<rparr>))
   \<and> per_file_trace (snd (convert_files stub_glob stub_ffmpeg ''*'' [''mp3'', ''ogg''] True False
           \<lparr>files = [''a.wav'', ''c.txt'', ''b.wav'', ''a.mp3''], stat_errors = [], events = []\<rparr>))
      = [Echoed (Skipping ''a.mp3''),
         Ran ''b.wav'' ''b.mp3'' (Exited 0), Echoed (Converted ''b.wav'' ''b.mp3''),
         Ran ''a.wav'' ''a.ogg'' (Exited 0), Echoed (Converted ''a.wav'' ''a.ogg''),
         Ran ''b.wav'' ''b.ogg'' (Exited 0), Echoed (Converted ''b.wav'' ''b.ogg'')]"
proof -
  have g: "stub_glob ''*'' = Inr (\<lambda>p. CHR ''/'' \<notin> set p \<and> fnmatch ''*'' p)"
    by (simp add: stub_glob_def)
  have t: "conversion_tasks [''mp3'', ''ogg'']
             (filter (\<lambda>p. CHR ''/'' \<notin> set p \<and> fnmatch ''*'' p)
                (files \<lparr>files = [''a.wav'', ''c.txt'', ''b.wav'', ''a.mp3''], stat_errors = [], events = []\<rparr>))
           = [(''mp3'', ''a.wav''), (''mp3'', ''b.wav''), (''ogg'', ''a.wav''), (''ogg'', ''b.wav'')]"
    by (simp add: conversion_tasks_def candidates_def suffix_def name_def)
  have e: "snd (convert_each stub_ffmpeg True False
           [(''mp3'', ''a.wav''), (''mp3'', ''b.wav''), (''ogg'', ''a.wav''), (''ogg'', ''b.wav'')]
           \<lparr>files = [''a.wav'', ''c.txt'', ''b.wav'', ''a.mp3''], stat_errors = [], events = []\<rparr>)
          = \<lparr>files = [''a.wav'', ''c.txt'', ''b.wav'', ''a.mp3'', ''b.mp3'', ''a.ogg'', ''b.ogg''], stat_errors = [],
             events = [Echoed (Skipping ''a.mp3''),
         Ran ''b.wav'' ''b.mp3'' (Exited 0), Echoed (Converted ''b.wav'' ''b.mp3''),
         Ran ''a.wav'' ''a.ogg'' (Exited 0), Echoed (Converted ''a.wav'' ''a.ogg''),
         Ran ''b.wav'' ''b.ogg'' (Exited 0), Echoed (Converted ''b.wav'' ''b.ogg'')]\<rparr>"
    "fst (convert_each stub_ffmpeg True False
           [(''mp3'', ''a.wav''), (''mp3'', ''b.wav''), (''ogg'', ''a.wav''), (''ogg'', ''b.wav'')]
           \<lparr>files = [''a.wav'', ''c.txt'', ''b.wav'', ''a.mp3''], stat_errors = [], events = []\<rparr>) = Inr ()"
    by (simp_all add: run_simps)
  from convert_files_cross_product_order
         [where gm = stub_glob and glob_pattern = "''*''"
            and m = "\<lambda>p. CHR ''/'' \<notin> set p \<and> fnmatch ''*'' p"
            and tr = stub_ffmpeg and output_formats = "[''mp3'', ''ogg'']"
            and verbose = True and force = False
            and w = "\<lparr>files = [''a.wav'', ''c.txt'', ''b.wav'', ''a.mp3''], stat_errors = [], events = []\<rparr>",
          THEN conjunct1, rule_format, OF g]
  show ?thesis
    unfolding t using g e by (simp add: per_file_trace_def)
qed

text \<open>
  Claim C5. In every run of \<^verbatim>\<open>convert_files\<close>, a conversion run that cannot be launched or
  exits with a nonzero status is the last thing the batch does: no event follows it, neither
  a run nor a printed line, and the batch ends with the error of that run. With three
  candidates and a transcoder that fails on the second, the transcoder is run on the first
  and on the second and never on the third.
\<close>

theorem convert_files_fail_fast:
  "(convert_files gm tr glob_pattern output_formats verbose force w = (r, w') \<longrightarrow>
      (\<exists>new. events w' = events w @ new
         \<and> (\<forall>pre i out res post. new = pre @ Ran i out res # post \<and> res \<noteq> Exited 0
               \<longrightarrow> post = [] \<and> r = Inl (error_of res))))
   \<and> convert_files stub_glob (stub_ffmpeg_failing_on ''b.wav'') ''*.wav'' [''mp3''] False False
          \<lparr>files = [''a.wav'', ''b.wav'', ''c.wav''], stat_errors = [], events = []\<rparr>
        = (Inl (CalledProcessError 1),
           \<lparr>files = [''a.wav'', ''b.wav'', ''c.wav'', ''a.mp3''], stat_errors = [],
            events = [Ran ''a.wav'' ''a.mp3'' (Exited 0), Ran ''b.wav'' ''b.mp3'' (Exited 1)]\<rparr>)"
proof (intro conjI impI)
  assume run: "convert_files gm tr glob_pattern output_formats verbose force w = (r, w')"
  from convert_files_progress [OF run] obtain new where
    n: "events w' = events w @ new"
       "progress 0 (map_sum id (\<lambda>_. int (length (filter successful_run new))) r) new"
    by blast
  have "post = [] \<and> r = Inl (error_of res)"
    if "new = pre @ Ran i out res # post \<and> res \<noteq> Exited 0" for pre i out res post
    using progress_fail_fast [OF n(2), of pre i out res post] that by (cases r) auto
  with n(1) show "\<exists>new. events w' = events w @ new
         \<and> (\<forall>pre i out res post. new = pre @ Ran i out res # post \<and> res \<noteq> Exited 0
               \<longrightarrow> post = [] \<and> r = Inl (error_of res))"
    by blast
next
  show "convert_files stub_glob (stub_ffmpeg_failing_on ''b.wav'') ''*.wav'' [''mp3''] False False
          \<lparr>files = [''a.wav'', ''b.wav'', ''c.wav''], stat_errors = [], events = []\<rparr>
        = (Inl (CalledProcessError 1),
           \<lparr>files = [''a.wav'', ''b.wav'', ''c.wav'', ''a.mp3''], stat_errors = [],
            events = [Ran ''a.wav'' ''a.mp3'' (Exited 0), Ran ''b.wav'' ''b.mp3'' (Exited 1)]\<rparr>)"
    by (simp add: run_simps)
qed

theorem convert_files_fail_fast_witness:
  "convert_files stub_glob (stub_ffmpeg_failing_on ''a.wav'') ''*.wav'' [''mp3'', ''ogg''] True True
      \<lparr>files = [''a.wav'', ''b.wav''], stat_errors = [], events = []\<rparr>
    = (Inl (CalledProcessError 1),
       \<lparr>files = [''a.wav'', ''b.wav''], stat_errors = [],
        events = [] @ [Echoed (Scanning ''*.wav''), Echoed (Found 2)]
                  @ Ran ''a.wav'' ''a.mp3'' (Exited 1) # []\<rparr>)
   \<and> Exited 1 \<noteq> Exited 0
   \<and> [] = ([] :: event list)
   \<and> (Inl (CalledProcessError 1) :: error + unit) = Inl (error_of (Exited 1))"
proof -
  have run: "convert_files stub_glob (stub_ffmpeg_failing_on ''a.wav'') ''*.wav'' [''mp3'', ''ogg''] True True
      \<lparr>files = [''a.wav'', ''b.wav''], stat_errors = [], events = []\<rparr>
    = (Inl (CalledProcessError 1),
       \<lparr>files = [''a.wav'', ''b.wav''], stat_errors = [],
        events = [] @ [Echoed (Scanning ''*.wav''), Echoed (Found 2)]
                  @ Ran ''a.wav'' ''a.mp3'' (Exited 1) # []\<rparr>)"
    by (simp add: run_simps)
  from convert_files_fail_fast [THEN conjunct1, rule_format, OF run]
  show ?thesis using run by simp
qed

text \<open>
  Claim C6, as amended. Let the transcoder create its output and touch nothing else, let no
  requested extension end in \<^verbatim>\<open>.wav\<close>, and let a first run of \<^verbatim>\<open>convert_files\<close> without force go
  through. Then a second run on the world the first one left, without force, goes through
  as well, converts nothing (no transcoder run, converted count 0 in its summary) and leaves
  the file system as it was.
\<close>

theorem convert_files_second_run_converts_nothing:
  assumes tr: "creates_output tr"
    and fmts: "\<forall>fmt\<in>set output_formats. \<not> ends_with ''.wav'' fmt"
    and first: "convert_files gm tr glob_pattern output_formats verbose False w = (Inr u, w1)"
  shows "\<exists>w2 paths. convert_files gm tr glob_pattern output_formats verbose' False w1 = (Inr (), w2)
           \<and> files w2 = files w1 \<and> invocations w2 = invocations w1
           \<and> converted_total w1 w2 = 0
           \<and> glob gm glob_pattern w1 = Inr paths
           \<and> (verbose' \<longrightarrow> last (echoed w2) = Summary 0 (int (length paths)))"
proof -
  from first obtain m where m: "gm glob_pattern = Inr m"
    by (cases "gm glob_pattern") (auto simp: convert_files_def glob_def)
  let ?ps0 = "filter m (files w)"
  let ?v0 = "log (Found (length ?ps0)) verbose (log (Scanning glob_pattern) verbose w)"
  obtain r0 w3 where cf: "convert_formats tr ?ps0 verbose False output_formats 0 ?v0 = (r0, w3)"
    by (cases "convert_formats tr ?ps0 verbose False output_formats 0 ?v0")
  with first m obtain c0 where r0: "r0 = Inr c0" and fw1: "files w1 = files w3"
    and sw1: "stat_errors w1 = stat_errors w3"
    by (cases r0) (auto simp: convert_files_def glob_def Let_def)
  from cf r0 have cf': "convert_formats tr ?ps0 verbose False output_formats 0 ?v0 = (Inr c0, w3)"
    by simp
  note cr = convert_formats_creates [OF tr cf']
  from cr have grown: "set (files w3) = set (files w) \<union> (\<Union>fmt\<in>set output_formats. destinations fmt ?ps0)"
    by simp
  from cr have sw3: "stat_errors w3 = stat_errors w" by simp
  from cr have defined: "\<forall>fmt\<in>set output_formats. \<forall>p\<in>set (candidates ?ps0).
                    \<exists>d. with_suffix p (CHR ''.'' # fmt) = Inr d \<and> map_of (stat_errors w) d = None"
    by simp
  let ?ps1 = "filter m (files w1)"
  let ?v1 = "log (Found (length ?ps1)) verbose' (log (Scanning glob_pattern) verbose' w1)"
  have old: "p \<in> set (candidates ?ps0)" if p: "p \<in> set (candidates ?ps1)" for p
  proof (cases "p \<in> set (files w)")
    case True
    with p show ?thesis by (simp add: candidates_def)
  next
    case False
    from p have "p \<in> set (files w3)" and sp: "suffix p = ''.wav''"
      by (simp_all add: candidates_def fw1)
    with grown False obtain fmt q where fmt: "fmt \<in> set output_formats"
      and q: "q \<in> set (candidates ?ps0)" "with_suffix q (CHR ''.'' # fmt) = Inr p"
      by (auto simp: destinations_def)
    from q(1) have "suffix q = ''.wav''" by (simp add: candidates_def)
    from with_suffix_wav_again [OF q(2) this sp] fmts fmt have "p = q" by blast
    with q(1) show ?thesis by simp
  qed
  have "\<forall>fmt\<in>set output_formats. \<forall>p\<in>set (candidates ?ps1).
          \<exists>d. with_suffix p (CHR ''.'' # fmt) = Inr d \<and> exists_path ?v1 d = Inr True"
  proof (intro ballI)
    fix fmt p assume fmt: "fmt \<in> set output_formats" and p: "p \<in> set (candidates ?ps1)"
    from old [OF p] defined fmt obtain d where
      d: "with_suffix p (CHR ''.'' # fmt) = Inr d" "map_of (stat_errors w) d = None" by blast
    with old [OF p] have "d \<in> destinations fmt ?ps0" by (auto simp: destinations_def)
    with grown fmt have "d \<in> set (files w1)" by (auto simp: fw1)
    moreover from d(2) have "map_of (stat_errors w1) d = None" by (simp add: sw1 sw3)
    ultimately have "exists_path ?v1 d = Inr True" by (simp add: exists_path_Inr)
    with d(1) show "\<exists>d. with_suffix p (CHR ''.'' # fmt) = Inr d \<and> exists_path ?v1 d = Inr True"
      by blast
  qed
  from convert_formats_all_skipped [OF this, of tr verbose' 0] obtain w4 new where
    s: "convert_formats tr ?ps1 verbose' False output_formats 0 ?v1 = (Inr 0, w4)"
       "files w4 = files ?v1" "events w4 = events ?v1 @ new"
       "\<forall>e\<in>set new. invocation_of e = []" by blast
  let ?w2 = "log (Summary 0 (int (length ?ps1))) verbose' w4"
  have run2: "convert_files gm tr glob_pattern output_formats verbose' False w1 = (Inr (), ?w2)"
    using m s(1) by (simp add: convert_files_def glob_def Let_def)
  let ?new = "(if verbose' then [Echoed (Scanning glob_pattern)] else [])
              @ (if verbose' then [Echoed (Found (length ?ps1))] else [])
              @ new @ (if verbose' then [Echoed (Summary 0 (int (length ?ps1)))] else [])"
  have ev: "events ?w2 = events w1 @ ?new" using s(3) by simp
  have ni: "\<forall>e\<in>set ?new. invocation_of e = []" using s(4) by auto
  note no_invocations_new [OF ev ni]
  moreover have "files ?w2 = files w1" using s(2) by simp
  moreover have "glob gm glob_pattern w1 = Inr ?ps1" using m by (simp add: glob_def)
  moreover have "verbose' \<longrightarrow> last (echoed ?w2) = Summary 0 (int (length ?ps1))" by simp
  ultimately show ?thesis using run2 by blast
qed

theorem convert_files_second_run_converts_nothing_witness:
  "creates_output stub_ffmpeg
   \<and> \<not> ends_with ''.wav'' ''mp3''
   \<and> convert_files stub_glob stub_ffmpeg ''*.wav'' [''mp3''] False False
        \<lparr>files = [''a.wav'', ''b.wav''], stat_errors = [], events = []\<rparr>
      = (Inr (),
         \<lparr>files = [''a.wav'', ''b.wav'', ''a.mp3'', ''b.mp3''], stat_errors = [],
          events = [Ran ''a.wav'' ''a.mp3'' (Exited 0), Ran ''b.wav'' ''b.mp3'' (Exited 0)]\<rparr>)
   \<and> (\<exists>w2.
         convert_files stub_glob stub_ffmpeg ''*.wav'' [''mp3''] True False
           \<lparr>files = [''a.wav'', ''b.wav'', ''a.mp3'', ''b.mp3''], stat_errors = [],
            events = [Ran ''a.wav'' ''a.mp3'' (Exited 0), Ran ''b.wav'' ''b.mp3'' (Exited 0)]\<rparr>
           = (Inr (), w2)
         \<and> files w2 = [''a.wav'', ''b.wav'', ''a.mp3'', ''b.mp3'']
         \<and> invocations w2 = [(''a.wav'', ''a.mp3''), (''b.wav'', ''b.mp3'')]
         \<and> last (echoed w2) = Summary 0 2)"
proof -
  have f: "\<forall>fmt\<in>set [''mp3'']. \<not> ends_with ''.wav'' fmt" by (simp add: ends_with_def)
  have first: "convert_files stub_glob stub_ffmpeg ''*.wav'' [''mp3''] False False
        \<lparr>files = [''a.wav'', ''b.wav''], stat_errors = [], events = []\<rparr>
      = (Inr (),
         \<lparr>files = [''a.wav'', ''b.wav'', ''a.mp3'', ''b.mp3''], stat_errors = [],
          events = [Ran ''a.wav'' ''a.mp3'' (Exited 0), Ran ''b.wav'' ''b.mp3'' (Exited 0)]\<rparr>)"
    by (simp add: run_simps)
  have g: "glob stub_glob ''*.wav''
             \<lparr>files = [''a.wav'', ''b.wav'', ''a.mp3'', ''b.mp3''], stat_errors = [],
              events = [Ran ''a.wav'' ''a.mp3'' (Exited 0), Ran ''b.wav'' ''b.mp3'' (Exited 0)]\<rparr>
           = Inr [''a.wav'', ''b.wav'']"
    by (simp add: glob_def stub_glob_def)
  from convert_files_second_run_converts_nothing
         [OF creates_output_stub_ffmpeg f first, of True]
  obtain w2 paths where
    w2: "convert_files stub_glob stub_ffmpeg ''*.wav'' [''mp3''] True False
           \<lparr>files = [''a.wav'', ''b.wav'', ''a.mp3'', ''b.mp3''], stat_errors = [],
            events = [Ran ''a.wav'' ''a.mp3'' (Exited 0), Ran ''b.wav'' ''b.mp3'' (Exited 0)]\<rparr>
           = (Inr (), w2)"
      "files w2 = [''a.wav'', ''b.wav'', ''a.mp3'', ''b.mp3'']"
      "invocations w2 = [(''a.wav'', ''a.mp3''), (''b.wav'', ''b.mp3'')]"
      "glob stub_glob ''*.wav''
             \<lparr>files = [''a.wav'', ''b.wav'', ''a.mp3'', ''b.mp3''], stat_errors = [],
              events = [Ran ''a.wav'' ''a.mp3'' (Exited 0), Ran ''b.wav'' ''b.mp3'' (Exited 0)]\<rparr>
           = Inr paths"
      "last (echoed w2) = Summary 0 (int (length paths))"
    by (auto simp: invocations_def)
  from w2(4) g have "paths = [''a.wav'', ''b.wav'']" by simp
  with w2(5) have "last (echoed w2) = Summary 0 2" by simp
  moreover have "\<not> ends_with ''.wav'' ''mp3''" by (simp add: ends_with_def)
  ultimately show ?thesis using w2(1-3) creates_output_stub_ffmpeg first by blast
qed

text \<open>
  The claim as stated, for any target extensions, fails for the extension \<^verbatim>\<open>x.wav\<close>: the first
  run converts \<^verbatim>\<open>a.wav\<close> to \<^verbatim>\<open>a.x.wav\<close>, which the pattern \<^verbatim>\<open>*.wav\<close> matches, and the second run
  converts that file to \<^verbatim>\<open>a.x.x.wav\<close>.
\<close>

theorem convert_files_second_run_converts_created_wav:
  "convert_files stub_glob stub_ffmpeg ''*.wav'' [''x.wav''] True False
        \<lparr>files = [''a.wav''], stat_errors = [], events = []\<rparr>
      = (Inr (),
         \<lparr>files = [''a.wav'', ''a.x.wav''], stat_errors = [],
          events = [Echoed (Scanning ''*.wav''), Echoed (Found 1),
                    Ran ''a.wav'' ''a.x.wav'' (Exited 0), Echoed (Converted ''a.wav'' ''a.x.wav''),
                    Echoed (ConvertedTo 1 ''x.wav''), Echoed (Summary 1 0)]\<rparr>)
   \<and> new_events
        \<lparr>files = [''a.wav'', ''a.x.wav''], stat_errors = [],
          events = [Echoed (Scanning ''*.wav''), Echoed (Found 1),
                    Ran ''a.wav'' ''a.x.wav'' (Exited 0), Echoed (Converted ''a.wav'' ''a.x.wav''),
                    Echoed (ConvertedTo 1 ''x.wav''), Echoed (Summary 1 0)]\<rparr>
        (snd (convert_files stub_glob stub_ffmpeg ''*.wav'' [''x.wav''] True False
        \<lparr>files = [''a.wav'', ''a.x.wav''], stat_errors = [],
          events = [Echoed (Scanning ''*.wav''), Echoed (Found 1),
                    Ran ''a.wav'' ''a.x.wav'' (Exited 0), Echoed (Converted ''a.wav'' ''a.x.wav''),
                    Echoed (ConvertedTo 1 ''x.wav''), Echoed (Summary 1 0)]\<rparr>))
      = [Echoed (Scanning ''*.wav''), Echoed (Found 2),
         Echoed (Skipping ''a.x.wav''),
         Ran ''a.x.wav'' ''a.x.x.wav'' (Exited 0), Echoed (Converted ''a.x.wav'' ''a.x.x.wav''),
         Echoed (ConvertedTo 1 ''x.wav''), Echoed (Summary 1 1)]"
  by (simp add: run_simps new_events_def)

section \<open>The format catalog\<close>

text \<open>
  Claim C7. For a line the pattern matches, the extensions of the formats it emits are the
  pieces of the extension token split at its commas, one format per piece (joined by commas
  they give the token back, and no piece holds a comma), and all of them carry the flags
  and the description of the line; a line the pattern does not match emits nothing, and
  the parser emits, line by line, what the lines emit. The two lines
  \<^verbatim>\<open>DE mp3,mp2  MPEG audio layer\<close> and \<^verbatim>\<open>weird garbage line\<close> yield exactly the formats \<^verbatim>\<open>mp3\<close> and
  \<^verbatim>\<open>mp2\<close>, both decoder and encoder, with the description \<^verbatim>\<open>MPEG audio layer\<close>.
\<close>

theorem line_formats_one_per_extension:
  "(pattern_match line = Some (d, e, exts, desc) \<longrightarrow>
      map extension (line_formats line) = split CHR '','' exts
      \<and> join CHR '','' (map extension (line_formats line)) = exts
      \<and> list_all (\<lambda>ext. CHR '','' \<notin> set ext) (map extension (line_formats line))
      \<and> length (line_formats line) = Suc (count_list exts CHR '','')
      \<and> map is_decoder (line_formats line)
           = replicate (length (line_formats line)) (d = Some CHR ''D'')
      \<and> map is_encoder (line_formats line)
           = replicate (length (line_formats line)) (e = Some CHR ''E'')
      \<and> map description (line_formats line)
           = replicate (length (line_formats line)) (strip desc))
   \<and> (pattern_match line = None \<longrightarrow> line_formats line = [])
   \<and> get_ffmpeg_supported_formats stdout = concat (map line_formats (split CHR 0x0A stdout))
   \<and> get_ffmpeg_supported_formats
        (''DE mp3,mp2  MPEG audio layer'' @ [CHR 0x0A] @ ''weird garbage line'')
      = [\<lparr>is_decoder = True, is_encoder = True, extension = ''mp3'',
           description = ''MPEG audio layer''\<rparr>,
         \<lparr>is_decoder = True, is_encoder = True, extension = ''mp2'',
           description = ''MPEG audio layer''\<rparr>]
   \<and> line_formats ''weird garbage line'' = []"
proof (intro conjI impI)
  assume m: "pattern_match line = Some (d, e, exts, desc)"
  note lf = line_formats_Some [OF m]
  show ext: "map extension (line_formats line) = split CHR '','' exts"
    unfolding lf by (simp add: comp_def)
  show "join CHR '','' (map extension (line_formats line)) = exts"
    unfolding ext by (rule join_split)
  show "list_all (\<lambda>ext. CHR '','' \<notin> set ext) (map extension (line_formats line))"
    unfolding ext by (rule split_pieces)
  show "length (line_formats line) = Suc (count_list exts CHR '','')"
    unfolding lf by (simp add: length_split)
  show "map is_decoder (line_formats line)
           = replicate (length (line_formats line)) (d = Some CHR ''D'')"
    unfolding lf by (simp add: comp_def map_replicate_const)
  show "map is_encoder (line_formats line)
           = replicate (length (line_formats line)) (e = Some CHR ''E'')"
    unfolding lf by (simp add: comp_def map_replicate_const)
  show "map description (line_formats line)
           = replicate (length (line_formats line)) (strip desc)"
    unfolding lf by (simp add: comp_def map_replicate_const)
next
  assume "pattern_match line = None"
  then show "line_formats line = []" by (simp add: line_formats_def)
next
  show "get_ffmpeg_supported_formats stdout = concat (map line_formats (split CHR 0x0A stdout))"
    by (rule get_formats_concat)
next
  show "get_ffmpeg_supported_formats
        (''DE mp3,mp2  MPEG audio layer'' @ [CHR 0x0A] @ ''weird garbage line'')
      = [\<lparr>is_decoder = True, is_encoder = True, extension = ''mp3'',
           description = ''MPEG audio layer''\<rparr>,
         \<lparr>is_decoder = True, is_encoder = True, extension = ''mp2'',
           description = ''MPEG audio layer''\<rparr>]"
    by code_simp
next
  show "line_formats ''weird garbage line'' = []" by code_simp
qed

theorem line_formats_one_per_extension_witness:
  "pattern_match ''DE mp3,mp2  MPEG audio layer''
     = Some (Some CHR ''D'', Some CHR ''E'', ''mp3,mp2'', ''MPEG audio layer'')
   \<and> map extension (line_formats ''DE mp3,mp2  MPEG audio layer'') = [''mp3'', ''mp2'']
   \<and> length (line_formats ''DE mp3,mp2  MPEG audio layer'') = 2
   \<and> map is_decoder (line_formats ''DE mp3,mp2  MPEG audio layer'') = [True, True]
   \<and> map is_encoder (line_formats ''DE mp3,mp2  MPEG audio layer'') = [True, True]
   \<and> map description (line_formats ''DE mp3,mp2  MPEG audio layer'')
        = [''MPEG audio layer'', ''MPEG audio layer'']
   \<and> pattern_match ''File formats:'' = None
   \<and> line_formats ''File formats:'' = []"
proof -
  have m: "pattern_match ''DE mp3,mp2  MPEG audio layer''
     = Some (Some CHR ''D'', Some CHR ''E'', ''mp3,mp2'', ''MPEG audio layer'')"
    by code_simp
  have n: "pattern_match ''File formats:'' = None" by code_simp
  have s: "strip ''MPEG audio layer'' = ''MPEG audio layer''" by code_simp
  note t = line_formats_one_per_extension
    [where line = "''DE mp3,mp2  MPEG audio layer''" and d = "Some CHR ''D''"
       and e = "Some CHR ''E''" and exts = "''mp3,mp2''" and desc = "''MPEG audio layer''"]
  note u = line_formats_one_per_extension [where line = "''File formats:''"]
  from t [THEN conjunct1, rule_format, OF m] u [THEN conjunct2, THEN conjunct1, rule_format, OF n]
  show ?thesis using m n s by (simp add: numeral_2_eq_2)
qed




section \<open>convert\<close>

text \<open>
  Claim C9, as amended. If a requested output extension is absent from the by-extension
  table, the command ends with a nonzero exit status, runs no conversion and leaves the
  file system as it was; and when the check of the installation has passed, it ends with
  exit status 1 having printed only the message that names the first absent extension of
  the list: every extension requested before it is in the table.
\<close>

theorem convert_rejects_unsupported_format:
  assumes "fmt \<in> set output_formats" "SUPPORTED_FORMATS_BY_EXTENSION stdout fmt = None"
  shows "exit_status (fst (convert stdout version_run os_type gm tr glob_pattern output_formats
                              verbose force w)) \<noteq> 0
       \<and> invocations (snd (convert stdout version_run os_type gm tr glob_pattern output_formats
                              verbose force w)) = invocations w
       \<and> files (snd (convert stdout version_run os_type gm tr glob_pattern output_formats
                              verbose force w)) = files w
       \<and> (check_ffmpeg_installation version_run = Inr True \<longrightarrow>
            (\<exists>pre bad post. output_formats = pre @ bad # post
               \<and> set pre \<subseteq> dom (SUPPORTED_FORMATS_BY_EXTENSION stdout)
               \<and> SUPPORTED_FORMATS_BY_EXTENSION stdout bad = None
               \<and> convert stdout version_run os_type gm tr glob_pattern output_formats
                    verbose force w
                  = (Exit 1, echo (UnsupportedOutputFormat bad) w)))"
proof -
  from assms have "\<not> set output_formats \<subseteq> dom (SUPPORTED_FORMATS_BY_EXTENSION stdout)"
    by auto
  then obtain bad where
    bad: "first_unsupported (SUPPORTED_FORMATS_BY_EXTENSION stdout) output_formats = Some bad"
    using first_unsupported_None [of "SUPPORTED_FORMATS_BY_EXTENSION stdout" output_formats]
    by (cases "first_unsupported (SUPPORTED_FORMATS_BY_EXTENSION stdout) output_formats") auto
  from first_unsupported_split [OF bad] obtain pre post where
    s: "output_formats = pre @ bad # post"
       "set pre \<subseteq> dom (SUPPORTED_FORMATS_BY_EXTENSION stdout)"
       "SUPPORTED_FORMATS_BY_EXTENSION stdout bad = None"
    by blast
  show ?thesis
  proof (cases "check_ffmpeg_installation version_run")
    case (Inl e)
    then show ?thesis by (simp add: convert_def)
  next
    case (Inr installed)
    show ?thesis
    proof (cases installed)
      case False
      with Inr show ?thesis by (simp add: convert_def)
    next
      case True
      with Inr have c: "check_ffmpeg_installation version_run = Inr True" by simp
      note cu = convert_unsupported [OF c bad, of os_type gm tr glob_pattern verbose force w]
      have "\<exists>pre bad post. output_formats = pre @ bad # post
               \<and> set pre \<subseteq> dom (SUPPORTED_FORMATS_BY_EXTENSION stdout)
               \<and> SUPPORTED_FORMATS_BY_EXTENSION stdout bad = None
               \<and> convert stdout version_run os_type gm tr glob_pattern output_formats
                    verbose force w
                  = (Exit 1, echo (UnsupportedOutputFormat bad) w)"
        using s cu by blast
      then show ?thesis using cu by simp
    qed
  qed
qed

theorem convert_rejects_unsupported_format_witness:
  "''xyz'' \<in> set [''mp3'', ''flac'', ''xyz'']
   \<and> SUPPORTED_FORMATS_BY_EXTENSION '' DE mp3   MP3 audio'' ''xyz'' = None
   \<and> check_ffmpeg_installation (Exited 0) = Inr True
   \<and> (\<exists>pre bad post. [''mp3'', ''flac'', ''xyz''] = pre @ bad # post
         \<and> set pre \<subseteq> dom (SUPPORTED_FORMATS_BY_EXTENSION '' DE mp3   MP3 audio'')
         \<and> SUPPORTED_FORMATS_BY_EXTENSION '' DE mp3   MP3 audio'' bad = None
         \<and> convert '' DE mp3   MP3 audio'' (Exited 0) ''Linux'' stub_glob stub_ffmpeg ''*.wav''
              [''mp3'', ''flac'', ''xyz''] True True
              \<lparr>files = [''a.wav''], stat_errors = [], events = []\<rparr>
            = (Exit 1, \<lparr>files = [''a.wav''], stat_errors = [],
                        events = [Echoed (UnsupportedOutputFormat bad)]\<rparr>))
   \<and> convert '' DE mp3   MP3 audio'' (Exited 0) ''Linux'' stub_glob stub_ffmpeg ''*.wav''
        [''mp3'', ''flac'', ''xyz''] True True
        \<lparr>files = [''a.wav''], stat_errors = [], events = []\<rparr>
      = (Exit 1, \<lparr>files = [''a.wav''], stat_errors = [],
                  events = [Echoed (UnsupportedOutputFormat ''flac'')]\<rparr>)"
proof -
  have sf: "SUPPORTED_FORMATS '' DE mp3   MP3 audio''
              = [\<lparr>is_decoder = True, is_encoder = True, extension = ''mp3'',
                  description = ''MP3 audio''\<rparr>]"
    by code_simp
  have a: "SUPPORTED_FORMATS_BY_EXTENSION '' DE mp3   MP3 audio'' ''xyz'' = None"
    by (simp add: SUPPORTED_FORMATS_BY_EXTENSION_def sf)
  have i: "''xyz'' \<in> set [''mp3'', ''flac'', ''xyz'']" by simp
  have c: "check_ffmpeg_installation (Exited 0) = Inr True"
    by (simp add: check_ffmpeg_installation_def)
  have r: "convert '' DE mp3   MP3 audio'' (Exited 0) ''Linux'' stub_glob stub_ffmpeg ''*.wav''
        [''mp3'', ''flac'', ''xyz''] True True
        \<lparr>files = [''a.wav''], stat_errors = [], events = []\<rparr>
      = (Exit 1, \<lparr>files = [''a.wav''], stat_errors = [],
                  events = [Echoed (UnsupportedOutputFormat ''flac'')]\<rparr>)"
    by (simp add: convert_def c SUPPORTED_FORMATS_BY_EXTENSION_def sf echo_def)
  from convert_rejects_unsupported_format [OF i a, THEN conjunct2, THEN conjunct2, THEN conjunct2,
         rule_format, OF c, of "''Linux''" stub_glob stub_ffmpeg "''*.wav''" True True
         "\<lparr>files = [''a.wav''], stat_errors = [], events = []\<rparr>"]
  have "\<exists>pre bad post. [''mp3'', ''flac'', ''xyz''] = pre @ bad # post
         \<and> set pre \<subseteq> dom (SUPPORTED_FORMATS_BY_EXTENSION '' DE mp3   MP3 audio'')
         \<and> SUPPORTED_FORMATS_BY_EXTENSION '' DE mp3   MP3 audio'' bad = None
         \<and> convert '' DE mp3   MP3 audio'' (Exited 0) ''Linux'' stub_glob stub_ffmpeg ''*.wav''
              [''mp3'', ''flac'', ''xyz''] True True
              \<lparr>files = [''a.wav''], stat_errors = [], events = []\<rparr>
            = (Exit 1, \<lparr>files = [''a.wav''], stat_errors = [],
                        events = [Echoed (UnsupportedOutputFormat bad)]\<rparr>)"
    by (simp add: echo_def)
  with i a c r show ?thesis by blast
qed

text \<open>
  The claim as stated, that the command fails with the unsupported-format error whenever a
  requested extension is absent, fails when \<^verbatim>\<open>ffmpeg -version\<close> exits with a nonzero status:
  the check of the installation comes first, \<^verbatim>\<open>CalledProcessError\<close> escapes from it and the
  validation is never reached.
\<close>

theorem convert_version_check_comes_first:
  "SUPPORTED_FORMATS_BY_EXTENSION [] ''mp3'' = None
   \<and> convert [] (Exited 1) ''Linux'' stub_glob stub_ffmpeg ''*.wav''
        [''mp3''] True False \<lparr>files = [''a.wav''], stat_errors = [], events = []\<rparr>
      = (Raised (CalledProcessError 1),
         \<lparr>files = [''a.wav''], stat_errors = [], events = []\<rparr>)"
proof -
  have sf: "SUPPORTED_FORMATS [] = []" by code_simp
  have "SUPPORTED_FORMATS_BY_EXTENSION [] ''mp3'' = None"
    by (simp add: SUPPORTED_FORMATS_BY_EXTENSION_def sf)
  then show ?thesis
    by (simp add: convert_def check_ffmpeg_installation_def)
qed

text \<open>
  Claim C10. With the check of the installation passed, the command leaves with the
  unsupported-format message exactly when some requested extension is no key of the
  by-extension table, and the message names the first such extension; otherwise it goes on
  to \<^verbatim>\<open>convert_files\<close>. The keys are the extensions of the catalog, and the command depends on
  the capability listing only through them: two listings with the same extensions give the
  same run, whatever the flags, and setting the encoder flag of every entry to any value
  changes nothing in what the validation does. With the decode-only format \<^verbatim>\<open>aac\<close> in the
  catalog, \<^verbatim>\<open>a.wav\<close> is converted to \<^verbatim>\<open>a.aac\<close>.
\<close>

theorem validation_ignores_encoder_flag:
  "(first_unsupported by_extension output_formats = None)
      = (set output_formats \<subseteq> dom by_extension)
   \<and> (first_unsupported by_extension [fmt] = Some fmt) = (fmt \<notin> dom by_extension)
   \<and> first_unsupported (\<lambda>k. map_option (\<lambda>f. f\<lparr>is_encoder := b\<rparr>) (by_extension k)) output_formats
        = first_unsupported by_extension output_formats
   \<and> dom (SUPPORTED_FORMATS_BY_EXTENSION stdout) = extension ` set (SUPPORTED_FORMATS stdout)
   \<and> (check_ffmpeg_installation version_run = Inr True
        \<and> set output_formats \<subseteq> extension ` set (SUPPORTED_FORMATS stdout) \<longrightarrow>
         convert stdout version_run os_type gm tr glob_pattern output_formats verbose force w
         = (case convert_files gm tr glob_pattern output_formats verbose force w of
              (Inl e, w') \<Rightarrow> (Exit 1, echo (ErrorOccurred e) w')
            | (Inr u, w') \<Rightarrow> (Returned, w')))
   \<and> (check_ffmpeg_installation version_run = Inr True
        \<and> output_formats = pre @ bad # post
        \<and> set pre \<subseteq> extension ` set (SUPPORTED_FORMATS stdout)
        \<and> bad \<notin> extension ` set (SUPPORTED_FORMATS stdout) \<longrightarrow>
         convert stdout version_run os_type gm tr glob_pattern output_formats verbose force w
         = (Exit 1, echo (UnsupportedOutputFormat bad) w))
   \<and> (check_ffmpeg_installation version_run = Inr True \<longrightarrow>
         (\<exists>x. convert stdout version_run os_type gm tr glob_pattern output_formats verbose force w
                = (Exit 1, echo (UnsupportedOutputFormat x) w))
         = (\<not> set output_formats \<subseteq> extension ` set (SUPPORTED_FORMATS stdout)))
   \<and> (extension ` set (SUPPORTED_FORMATS stdout) = extension ` set (SUPPORTED_FORMATS stdout') \<longrightarrow>
         convert stdout version_run os_type gm tr glob_pattern output_formats verbose force w
         = convert stdout' version_run os_type gm tr glob_pattern output_formats verbose force w)
   \<and> SUPPORTED_FORMATS '' D  aac   raw ADTS AAC''
        = [\<lparr>is_decoder = True, is_encoder = False, extension = ''aac'',
            description = ''raw ADTS AAC''\<rparr>]
   \<and> convert '' D  aac   raw ADTS AAC'' (Exited 0) ''Linux'' stub_glob stub_ffmpeg ''*.wav''
        [''aac''] False False \<lparr>files = [''a.wav''], stat_errors = [], events = []\<rparr>
      = (Returned,
         \<lparr>files = [''a.wav'', ''a.aac''], stat_errors = [],
          events = [Ran ''a.wav'' ''a.aac'' (Exited 0)]\<rparr>)"
proof (intro conjI impI)
  show "(first_unsupported by_extension output_formats = None)
      = (set output_formats \<subseteq> dom by_extension)"
    by (rule first_unsupported_None)
  show "(first_unsupported by_extension [fmt] = Some fmt) = (fmt \<notin> dom by_extension)"
    by auto
  show "first_unsupported (\<lambda>k. map_option (\<lambda>f. f\<lparr>is_encoder := b\<rparr>) (by_extension k)) output_formats
        = first_unsupported by_extension output_formats"
    by (rule first_unsupported_map_option)
  show "dom (SUPPORTED_FORMATS_BY_EXTENSION stdout) = extension ` set (SUPPORTED_FORMATS stdout)"
    by (rule dom_SUPPORTED_FORMATS_BY_EXTENSION)
next
  assume a: "check_ffmpeg_installation version_run = Inr True
        \<and> set output_formats \<subseteq> extension ` set (SUPPORTED_FORMATS stdout)"
  then have "first_unsupported (SUPPORTED_FORMATS_BY_EXTENSION stdout) output_formats = None"
    by (simp add: first_unsupported_None dom_SUPPORTED_FORMATS_BY_EXTENSION)
  with a show "convert stdout version_run os_type gm tr glob_pattern output_formats verbose force w
         = (case convert_files gm tr glob_pattern output_formats verbose force w of
              (Inl e, w') \<Rightarrow> (Exit 1, echo (ErrorOccurred e) w')
            | (Inr u, w') \<Rightarrow> (Returned, w'))"
    by (intro convert_supported) simp_all
next
  assume a: "check_ffmpeg_installation version_run = Inr True
        \<and> output_formats = pre @ bad # post
        \<and> set pre \<subseteq> extension ` set (SUPPORTED_FORMATS stdout)
        \<and> bad \<notin> extension ` set (SUPPORTED_FORMATS stdout)"
  then have "set pre \<subseteq> dom (SUPPORTED_FORMATS_BY_EXTENSION stdout)"
    and "SUPPORTED_FORMATS_BY_EXTENSION stdout bad = None"
    by (auto simp: dom_SUPPORTED_FORMATS_BY_EXTENSION [symmetric])
  then have "first_unsupported (SUPPORTED_FORMATS_BY_EXTENSION stdout) (pre @ bad # post) = Some bad"
    by (rule first_unsupported_first)
  with a show "convert stdout version_run os_type gm tr glob_pattern output_formats verbose force w
         = (Exit 1, echo (UnsupportedOutputFormat bad) w)"
    by (intro convert_unsupported) simp_all
next
  assume c: "check_ffmpeg_installation version_run = Inr True"
  let ?by = "SUPPORTED_FORMATS_BY_EXTENSION stdout"
  let ?run = "convert stdout version_run os_type gm tr glob_pattern output_formats verbose force w"
  show "(\<exists>x. ?run = (Exit 1, echo (UnsupportedOutputFormat x) w))
         = (\<not> set output_formats \<subseteq> extension ` set (SUPPORTED_FORMATS stdout))"
  proof (cases "first_unsupported ?by output_formats")
    case None
    then have sub: "set output_formats \<subseteq> extension ` set (SUPPORTED_FORMATS stdout)"
      by (simp add: first_unsupported_None dom_SUPPORTED_FORMATS_BY_EXTENSION)
    note cs = convert_supported [OF c None, of os_type gm tr glob_pattern verbose force w]
    have "?run \<noteq> (Exit 1, echo (UnsupportedOutputFormat x) w)" for x
    proof (cases "convert_files gm tr glob_pattern output_formats verbose force w")
      case (Pair r w')
      show ?thesis
      proof (cases r)
        case (Inl e)
        with cs Pair have "?run = (Exit 1, echo (ErrorOccurred e) w')" by simp
        then show ?thesis using echo_neq [of "ErrorOccurred e" w' "UnsupportedOutputFormat x" w]
          by auto
      next
        case (Inr u)
        with cs Pair show ?thesis by simp
      qed
    qed
    with sub show ?thesis by simp
  next
    case (Some bad)
    then have "\<not> set output_formats \<subseteq> extension ` set (SUPPORTED_FORMATS stdout)"
      using first_unsupported_None [of ?by output_formats]
      by (simp add: dom_SUPPORTED_FORMATS_BY_EXTENSION)
    moreover have "?run = (Exit 1, echo (UnsupportedOutputFormat bad) w)"
      using c Some by (rule convert_unsupported)
    ultimately show ?thesis by blast
  qed
next
  assume "extension ` set (SUPPORTED_FORMATS stdout) = extension ` set (SUPPORTED_FORMATS stdout')"
  then have "dom (SUPPORTED_FORMATS_BY_EXTENSION stdout) = dom (SUPPORTED_FORMATS_BY_EXTENSION stdout')"
    by (simp add: dom_SUPPORTED_FORMATS_BY_EXTENSION)
  then have "first_unsupported (SUPPORTED_FORMATS_BY_EXTENSION stdout) output_formats
           = first_unsupported (SUPPORTED_FORMATS_BY_EXTENSION stdout') output_formats"
    by (rule first_unsupported_dom)
  then show "convert stdout version_run os_type gm tr glob_pattern output_formats verbose force w
         = convert stdout' version_run os_type gm tr glob_pattern output_formats verbose force w"
    unfolding convert_def by (rule arg_cong)
next
  show sf: "SUPPORTED_FORMATS '' D  aac   raw ADTS AAC''
        = [\<lparr>is_decoder = True, is_encoder = False, extension = ''aac'',
            description = ''raw ADTS AAC''\<rparr>]"
    by code_simp
  have cf: "convert_files stub_glob stub_ffmpeg ''*.wav'' [''aac''] False False
              \<lparr>files = [''a.wav''], stat_errors = [], events = []\<rparr>
            = (Inr (), \<lparr>files = [''a.wav'', ''a.aac''], stat_errors = [],
                        events = [Ran ''a.wav'' ''a.aac'' (Exited 0)]\<rparr>)"
    by (simp add: run_simps)
  show "convert '' D  aac   raw ADTS AAC'' (Exited 0) ''Linux'' stub_glob stub_ffmpeg ''*.wav''
        [''aac''] False False \<lparr>files = [''a.wav''], stat_errors = [], events = []\<rparr>
      = (Returned,
         \<lparr>files = [''a.wav'', ''a.aac''], stat_errors = [],
          events = [Ran ''a.wav'' ''a.aac'' (Exited 0)]\<rparr>)"
    by (simp add: convert_def check_ffmpeg_installation_def SUPPORTED_FORMATS_BY_EXTENSION_def
          sf cf)
qed

theorem validation_ignores_encoder_flag_witness:
  "check_ffmpeg_installation (Exited 0) = Inr True
   \<and> SUPPORTED_FORMATS ('' D  aac   raw ADTS AAC'' @ [CHR 0x0A] @ '' DE mp3   MP3 audio'')
        = [\<lparr>is_decoder = True, is_encoder = False, extension = ''aac'',
            description = ''raw ADTS AAC''\<rparr>,
           \<lparr>is_decoder = True, is_encoder = True, extension = ''mp3'',
            description = ''MP3 audio''\<rparr>]
   \<and> convert ('' D  aac   raw ADTS AAC'' @ [CHR 0x0A] @ '' DE mp3   MP3 audio'') (Exited 0)
        ''Darwin'' stub_glob (stub_ffmpeg_failing_on ''a.wav'') ''*.wav'' [''aac'', ''mp3'']
        False False \<lparr>files = [''a.wav''], stat_errors = [], events = []\<rparr>
      = (Exit 1,
         \<lparr>files = [''a.wav''], stat_errors = [],
          events = [Ran ''a.wav'' ''a.aac'' (Exited 1),
                    Echoed (ErrorOccurred (CalledProcessError 1))]\<rparr>)
   \<and> [''aac'', ''flac'', ''mp3''] = [''aac''] @ ''flac'' # [''mp3'']
   \<and> set [''aac''] \<subseteq> extension ` set (SUPPORTED_FORMATS
         ('' D  aac   raw ADTS AAC'' @ [CHR 0x0A] @ '' DE mp3   MP3 audio''))
   \<and> ''flac'' \<notin> extension ` set (SUPPORTED_FORMATS
         ('' D  aac   raw ADTS AAC'' @ [CHR 0x0A] @ '' DE mp3   MP3 audio''))
   \<and> convert ('' D  aac   raw ADTS AAC'' @ [CHR 0x0A] @ '' DE mp3   MP3 audio'') (Exited 0)
        ''Darwin'' stub_glob stub_ffmpeg ''*.wav'' [''aac'', ''flac'', ''mp3'']
        False True \<lparr>files = [''a.wav''], stat_errors = [], events = []\<rparr>
      = (Exit 1,
         \<lparr>files = [''a.wav''], stat_errors = [],
          events = [Echoed (UnsupportedOutputFormat ''flac'')]\<rparr>)
   \<and> (\<exists>x. convert ('' D  aac   raw ADTS AAC'' @ [CHR 0x0A] @ '' DE mp3   MP3 audio'') (Exited 0)
        ''Darwin'' stub_glob stub_ffmpeg ''*.wav'' [''aac'', ''flac'', ''mp3'']
        False True \<lparr>files = [''a.wav''], stat_errors = [], events = []\<rparr>
      = (Exit 1,
         \<lparr>files = [''a.wav''], stat_errors = [],
          events = [Echoed (UnsupportedOutputFormat x)]\<rparr>))
   \<and> extension ` set (SUPPORTED_FORMATS
         ('' D  aac   raw ADTS AAC'' @ [CHR 0x0A] @ '' DE mp3   MP3 audio''))
      = extension ` set (SUPPORTED_FORMATS ('' E  mp3,aac   encoders''))
   \<and> convert ('' D  aac   raw ADTS AAC'' @ [CHR 0x0A] @ '' DE mp3   MP3 audio'') (Exited 0)
        ''Darwin'' stub_glob stub_ffmpeg ''*.wav'' [''aac'']
        False False \<lparr>files = [''a.wav''], stat_errors = [], events = []\<rparr>
      = convert ('' E  mp3,aac   encoders'') (Exited 0)
        ''Darwin'' stub_glob stub_ffmpeg ''*.wav'' [''aac'']
        False False \<lparr>files = [''a.wav''], stat_errors = [], events = []\<rparr>"
proof -
  let ?S = "'' D  aac   raw ADTS AAC'' @ [CHR 0x0A] @ '' DE mp3   MP3 audio''"
  let ?W = "\<lparr>files = [''a.wav''], stat_errors = [], events = []\<rparr>"
  have c: "check_ffmpeg_installation (Exited 0) = Inr True"
    by (simp add: check_ffmpeg_installation_def)
  have sf: "SUPPORTED_FORMATS ?S
        = [\<lparr>is_decoder = True, is_encoder = False, extension = ''aac'',
            description = ''raw ADTS AAC''\<rparr>,
           \<lparr>is_decoder = True, is_encoder = True, extension = ''mp3'',
            description = ''MP3 audio''\<rparr>]"
    by code_simp
  have sf': "SUPPORTED_FORMATS ('' E  mp3,aac   encoders'')
        = [\<lparr>is_decoder = False, is_encoder = True, extension = ''aac'',
            description = ''encoders''\<rparr>,
           \<lparr>is_decoder = False, is_encoder = True, extension = ''mp3'',
            description = ''encoders''\<rparr>]"
    by code_simp
  have sub: "set [''aac'', ''mp3''] \<subseteq> extension ` set (SUPPORTED_FORMATS ?S)"
    unfolding sf by simp
  have pre: "set [''aac''] \<subseteq> extension ` set (SUPPORTED_FORMATS ?S)"
    unfolding sf by simp
  have bad: "''flac'' \<notin> extension ` set (SUPPORTED_FORMATS ?S)"
    unfolding sf by simp
  have split: "[''aac'', ''flac'', ''mp3''] = [''aac''] @ ''flac'' # [''mp3'']" by simp
  have same: "extension ` set (SUPPORTED_FORMATS ?S)
      = extension ` set (SUPPORTED_FORMATS ('' E  mp3,aac   encoders''))"
    unfolding sf sf' by simp
  have cf: "convert_files stub_glob (stub_ffmpeg_failing_on ''a.wav'') ''*.wav'' [''aac'', ''mp3'']
              False False ?W
            = (Inl (CalledProcessError 1),
               \<lparr>files = [''a.wav''], stat_errors = [],
                events = [Ran ''a.wav'' ''a.aac'' (Exited 1)]\<rparr>)"
    by (simp add: run_simps)
  note accept = validation_ignores_encoder_flag
    [where version_run = "Exited 0" and stdout = ?S
       and output_formats = "[''aac'', ''mp3'']" and os_type = "''Darwin''"
       and gm = stub_glob and tr = "stub_ffmpeg_failing_on ''a.wav''"
       and glob_pattern = "''*.wav''" and verbose = False and force = False and w = ?W,
     THEN conjunct2, THEN conjunct2, THEN conjunct2, THEN conjunct2, THEN conjunct1,
     rule_format, OF conjI [OF c sub]]
  note reject = validation_ignores_encoder_flag
    [where version_run = "Exited 0" and stdout = ?S
       and output_formats = "[''aac'', ''flac'', ''mp3'']" and os_type = "''Darwin''"
       and pre = "[''aac'']" and bad = "''flac''" and post = "[''mp3'']"
       and gm = stub_glob and tr = stub_ffmpeg
       and glob_pattern = "''*.wav''" and verbose = False and force = True and w = ?W,
     THEN conjunct2, THEN conjunct2, THEN conjunct2, THEN conjunct2, THEN conjunct2,
     THEN conjunct1, rule_format, OF conjI [OF c conjI [OF split conjI [OF pre bad]]]]
  note keys = validation_ignores_encoder_flag
    [where version_run = "Exited 0" and stdout = ?S and stdout' = "'' E  mp3,aac   encoders''"
       and output_formats = "[''aac'']" and os_type = "''Darwin''"
       and gm = stub_glob and tr = stub_ffmpeg
       and glob_pattern = "''*.wav''" and verbose = False and force = False and w = ?W,
     THEN conjunct2, THEN conjunct2, THEN conjunct2, THEN conjunct2, THEN conjunct2,
     THEN conjunct2, THEN conjunct2, THEN conjunct1, rule_format, OF same]
  have a: "convert ?S (Exited 0) ''Darwin'' stub_glob (stub_ffmpeg_failing_on ''a.wav'') ''*.wav''
        [''aac'', ''mp3''] False False ?W
      = (Exit 1,
         \<lparr>files = [''a.wav''], stat_errors = [],
          events = [Ran ''a.wav'' ''a.aac'' (Exited 1),
                    Echoed (ErrorOccurred (CalledProcessError 1))]\<rparr>)"
    using accept cf by (simp add: echo_def)
  have r: "convert ?S (Exited 0) ''Darwin'' stub_glob stub_ffmpeg ''*.wav''
        [''aac'', ''flac'', ''mp3''] False True ?W
      = (Exit 1,
         \<lparr>files = [''a.wav''], stat_errors = [],
          events = [Echoed (UnsupportedOutputFormat ''flac'')]\<rparr>)"
    using reject by (simp add: echo_def)
  from r have ex: "\<exists>x. convert ?S (Exited 0) ''Darwin'' stub_glob stub_ffmpeg ''*.wav''
        [''aac'', ''flac'', ''mp3''] False True ?W
      = (Exit 1,
         \<lparr>files = [''a.wav''], stat_errors = [],
          events = [Echoed (UnsupportedOutputFormat x)]\<rparr>)"
    by blast
  show ?thesis by (intro conjI c sf a split pre bad r ex same keys)
qed

end
